theory Spec2Isabelle
  imports Complex_Main "HOL-Library.AList"
begin

section \<open>JavaScript strings and values\<close>

text \<open>
  A JavaScript string is a sequence of code units. The model writes it as a \<open>string\<close>,
  one \<open>char\<close> for one code unit below 256, which covers every string literal of the
  program. \<open>isSpace\<close> is the white space that \<open>String.prototype.trim\<close>, \<open>parseFloat\<close> and
  the regular expression class \<open>\s\<close> agree on (tab, line feed, vertical tab, form feed,
  carriage return, space, no-break space), \<open>isDigit\<close> is the class \<open>\d\<close>.
\<close>

definition LF :: char where
  "LF = CHR 0x0A"

definition CR :: char where
  "CR = CHR 0x0D"

definition isSpace :: "char \<Rightarrow> bool" where
  "isSpace c = (let n = (of_char c :: nat) in (9 \<le> n \<and> n \<le> 13) \<or> n = 32 \<or> n = 160)"

definition isDigit :: "char \<Rightarrow> bool" where
  "isDigit c = (let n = (of_char c :: nat) in 48 \<le> n \<and> n \<le> 57)"

definition trim :: "string \<Rightarrow> string" where
  "trim s = rev (dropWhile isSpace (rev (dropWhile isSpace s)))"

definition lowerChar :: "char \<Rightarrow> char" where
  "lowerChar c =
     (let n = (of_char c :: nat)
      in if (65 \<le> n \<and> n \<le> 90) \<or> (192 \<le> n \<and> n \<le> 222 \<and> n \<noteq> 215)
         then char_of (n + 32) else c)"

definition toLowerCase :: "string \<Rightarrow> string" where
  "toLowerCase s = map lowerChar s"

text \<open>\<open>s.includes(sub)\<close>: \<open>sub\<close> occurs in \<open>s\<close> as a contiguous piece.\<close>

fun stripPrefix :: "string \<Rightarrow> string \<Rightarrow> string option" where
  "stripPrefix [] s = Some s"
| "stripPrefix (p # ps) [] = None"
| "stripPrefix (p # ps) (c # cs) = (if p = c then stripPrefix ps cs else None)"

fun includesStr :: "string \<Rightarrow> string \<Rightarrow> bool" where
  "includesStr [] sub = (sub = [])"
| "includesStr (c # cs) sub = (stripPrefix sub (c # cs) \<noteq> None \<or> includesStr cs sub)"

text \<open>\<open>Array.prototype.join\<close> on strings.\<close>

fun join :: "string \<Rightarrow> string list \<Rightarrow> string" where
  "join sep [] = []"
| "join sep [x] = x"
| "join sep (x # y # ys) = x @ sep @ join sep (y # ys)"

text \<open>
  A number is a double. The model keeps the three special values apart and writes a
  finite double as the rational it stands for; rounding and the sign of zero are not
  modelled. \<open>numGt\<close> is the operator \<open>>\<close> and \<open>absGe\<close> is \<open>Math.abs(x) >= y\<close>, both
  false as soon as \<open>NaN\<close> takes part.
\<close>

datatype number = NaN | PosInf | NegInf | Fin rat

fun numGt :: "number \<Rightarrow> number \<Rightarrow> bool" where
  "numGt (Fin x) (Fin y) = (x > y)"
| "numGt PosInf (Fin y) = True"
| "numGt PosInf NegInf = True"
| "numGt (Fin x) NegInf = True"
| "numGt _ _ = False"

fun absGe :: "number \<Rightarrow> rat \<Rightarrow> bool" where
  "absGe (Fin x) y = (\<bar>x\<bar> \<ge> y)"
| "absGe PosInf y = True"
| "absGe NegInf y = True"
| "absGe NaN y = False"

text \<open>
  The values a row of a result can hold: what the mock generators, the CSV parser and
  \<open>JSON.parse\<close> produce. An object is the list of its own properties.
\<close>

datatype jsval =
    JUndefined
  | JNull
  | JBool bool
  | JNum number
  | JStr string
  | JArr "jsval list"
  | JObj "(string \<times> jsval) list"

type_synonym row = "(string \<times> jsval) list"

text \<open>
  \<open>row[key]\<close>: the property, or \<open>undefined\<close> when the row has none of that name. What a
  row would inherit from \<open>Object.prototype\<close> under names such as \<open>constructor\<close> is not
  modelled.
\<close>

definition getProp :: "row \<Rightarrow> string \<Rightarrow> jsval" where
  "getProp r key = (case map_of r key of None \<Rightarrow> JUndefined | Some v \<Rightarrow> v)"

text \<open>Truthiness, as \<open>&&\<close> and \<open>if\<close> test it.\<close>

fun truthyVal :: "jsval \<Rightarrow> bool" where
  "truthyVal JUndefined = False"
| "truthyVal JNull = False"
| "truthyVal (JBool b) = b"
| "truthyVal (JNum n) = (n \<noteq> NaN \<and> n \<noteq> Fin 0)"
| "truthyVal (JStr s) = (s \<noteq> [])"
| "truthyVal (JArr vs) = True"
| "truthyVal (JObj ps) = True"

text \<open>
  How the engine and its locale write a number is not in the source:
  \<open>Number.prototype.toLocaleString\<close> and \<open>Number.prototype.toString\<close> are parameters of
  the model, collected in a \<open>platform\<close>.
\<close>

record platform =
  toLocaleString :: "number \<Rightarrow> string"
  numberToString :: "number \<Rightarrow> string"

text \<open>
  The abstract operation \<open>ToString\<close>; an array is its elements joined by commas, with
  \<open>null\<close> and \<open>undefined\<close> elements left empty, as \<open>Array.prototype.join\<close> has it.
\<close>

fun toStringJS :: "platform \<Rightarrow> jsval \<Rightarrow> string" where
  "toStringJS P JUndefined = ''undefined''"
| "toStringJS P JNull = ''null''"
| "toStringJS P (JBool b) = (if b then ''true'' else ''false'')"
| "toStringJS P (JNum n) = numberToString P n"
| "toStringJS P (JStr s) = s"
| "toStringJS P (JArr vs) =
     join '','' (map (\<lambda>v. if v = JUndefined \<or> v = JNull then [] else toStringJS P v) vs)"
| "toStringJS P (JObj ps) = ''[object Object]''"

definition joinElement :: "platform \<Rightarrow> jsval \<Rightarrow> string" where
  "joinElement P v = (if v = JUndefined \<or> v = JNull then [] else toStringJS P v)"

text \<open>
  \<open>JSON.stringify\<close> on these values, \<open>None\<close> for its \<open>undefined\<close>: a string is quoted
  with the JSON escapes, a number that is not finite is \<open>null\<close>, an \<open>undefined\<close> array
  element is \<open>null\<close>, an \<open>undefined\<close> property is left out.
\<close>

definition hexDigit :: "nat \<Rightarrow> char" where
  "hexDigit n = (if n < 10 then char_of (48 + n) else char_of (87 + n))"

definition jsonEscape :: "char \<Rightarrow> string" where
  "jsonEscape c =
     (let n = (of_char c :: nat)
      in if n = 34 then [CHR 0x5C, CHR 0x22]
         else if n = 92 then [CHR 0x5C, CHR 0x5C]
         else if n = 8 then [CHR 0x5C, CHR ''b'']
         else if n = 12 then [CHR 0x5C, CHR ''f'']
         else if n = 10 then [CHR 0x5C, CHR ''n'']
         else if n = 13 then [CHR 0x5C, CHR ''r'']
         else if n = 9 then [CHR 0x5C, CHR ''t'']
         else if n < 32 then [CHR 0x5C, CHR ''u'', CHR ''0'', CHR ''0'',
                              hexDigit (n div 16), hexDigit (n mod 16)]
         else [c])"

definition jsonQuote :: "string \<Rightarrow> string" where
  "jsonQuote s = [CHR 0x22] @ concat (map jsonEscape s) @ [CHR 0x22]"

fun jsonStringify :: "platform \<Rightarrow> jsval \<Rightarrow> string option" where
  "jsonStringify P JUndefined = None"
| "jsonStringify P JNull = Some ''null''"
| "jsonStringify P (JBool b) = Some (if b then ''true'' else ''false'')"
| "jsonStringify P (JNum n) =
     Some (case n of Fin q \<Rightarrow> numberToString P n | _ \<Rightarrow> ''null'')"
| "jsonStringify P (JStr s) = Some (jsonQuote s)"
| "jsonStringify P (JArr vs) =
     Some (''['' @ join '',''
             (map (\<lambda>v. case jsonStringify P v of None \<Rightarrow> ''null'' | Some t \<Rightarrow> t) vs) @ '']'')"
| "jsonStringify P (JObj ps) =
     Some (''{'' @ join '',''
             (concat (map (\<lambda>p. case jsonStringify P (snd p) of
                                   None \<Rightarrow> []
                                 | Some t \<Rightarrow> [jsonQuote (fst p) @ '':'' @ t]) ps)) @ ''}'')"

text \<open>The value of a string of decimal digits.\<close>

definition digitsValue :: "string \<Rightarrow> nat" where
  "digitsValue ds = foldl (\<lambda>acc c. 10 * acc + (of_char c - 48)) 0 ds"

text \<open>
  \<open>parseFloat\<close> on a string: leading white space is skipped, then the longest prefix
  that is a decimal literal (sign, \<open>Infinity\<close>, or digits with an optional fraction and
  an optional exponent that has digits) gives the value; without such a prefix the
  result is \<open>NaN\<close>.
\<close>

definition parseExponent :: "string \<Rightarrow> int" where
  "parseExponent r =
     (case r of
        [] \<Rightarrow> 0
      | e # r1 \<Rightarrow>
          if e = CHR ''e'' \<or> e = CHR ''E'' then
            (case r1 of
               [] \<Rightarrow> 0
             | sg # r2 \<Rightarrow>
                 if sg = CHR ''-'' then
                   (if takeWhile isDigit r2 = [] then 0
                    else - int (digitsValue (takeWhile isDigit r2)))
                 else if sg = CHR ''+'' then int (digitsValue (takeWhile isDigit r2))
                 else int (digitsValue (takeWhile isDigit r1)))
          else 0)"

definition parseUnsigned :: "string \<Rightarrow> rat option" where
  "parseUnsigned r =
     (let ip = takeWhile isDigit r;
          r1 = dropWhile isDigit r;
          dot = (r1 \<noteq> [] \<and> hd r1 = CHR ''.'');
          fp = (if dot then takeWhile isDigit (tl r1) else []);
          r2 = (if dot then dropWhile isDigit (tl r1) else r1)
      in if ip = [] \<and> fp = [] then None
         else Some ((of_nat (digitsValue ip) + of_nat (digitsValue fp) / 10 ^ length fp)
                    * 10 powi parseExponent r2))"

definition parseFloatStr :: "string \<Rightarrow> number" where
  "parseFloatStr s =
     (let t = dropWhile isSpace s;
          neg = (t \<noteq> [] \<and> hd t = CHR ''-'');
          r = (if t \<noteq> [] \<and> (hd t = CHR ''-'' \<or> hd t = CHR ''+'') then tl t else t)
      in if stripPrefix ''Infinity'' r \<noteq> None then (if neg then NegInf else PosInf)
         else (case parseUnsigned r of
                 None \<Rightarrow> NaN
               | Some q \<Rightarrow> Fin (if neg then - q else q)))"

definition parseFloat :: "platform \<Rightarrow> jsval \<Rightarrow> number" where
  "parseFloat P v = parseFloatStr (toStringJS P v)"

section \<open>The query tab registry (stores.svelte.ts, createQueryTabsStore)\<close>

text \<open>
  A \<open>QueryTab\<close> of utils/index.ts. The fields the interface marks optional
  (\<open>isActive?\<close>, \<open>isSaved?\<close>, \<open>isExecuting?\<close>, \<open>lastModified?\<close>) are options,
  \<open>None\<close> standing for a field that is not there. A time stamp is a number of
  milliseconds.
\<close>

record QueryTab =
  tab_id :: string
  tab_name :: string
  tab_query :: string
  isActive :: "bool option"
  isSaved :: "bool option"
  hasChanges :: bool
  tab_isExecuting :: "bool option"
  lastModified :: "int option"

text \<open>JavaScript truthiness of an optional boolean field.\<close>

fun truthy :: "bool option \<Rightarrow> bool" where
  "truthy (Some b) = b"
| "truthy None = False"

text \<open>
  The closure state of \<open>createQueryTabsStore\<close>: the two runes, together with what the
  store reads from its environment, the \<open>browser\<close> flag of \<open>$app/environment\<close> and the
  two local-storage entries \<open>query-tabs\<close> and \<open>active-tab-id\<close> (\<open>None\<close>: the key is not
  stored, so \<open>storage.get\<close> answers its default). \<open>storage.set\<close> is taken to succeed
  whenever there is a browser.
\<close>

record TabsStore =
  tabs :: "QueryTab list"
  activeTabId :: string
  browser :: bool
  stored_tabs :: "QueryTab list option"
  stored_activeTabId :: "string option"

definition storage_get :: "'a option \<Rightarrow> 'a \<Rightarrow> 'a" where
  "storage_get item defaultValue = (case item of None \<Rightarrow> defaultValue | Some v \<Rightarrow> v)"

definition saveToStorage :: "TabsStore \<Rightarrow> TabsStore" where
  "saveToStorage s =
     (if \<not> browser s then s
      else s\<lparr>stored_tabs := Some (tabs s), stored_activeTabId := Some (activeTabId s)\<rparr>)"

definition setActiveTab :: "string \<Rightarrow> TabsStore \<Rightarrow> TabsStore" where
  "setActiveTab tabId s =
     saveToStorage
       (s\<lparr>tabs := map (\<lambda>tab. tab\<lparr>isActive := Some (tab_id tab = tabId)\<rparr>) (tabs s),
          activeTabId := tabId\<rparr>)"

text \<open>Decimal digits of a number, for the template string \<open>Query ${tabs.length + 1}\<close>.\<close>

function string_of_nat :: "nat \<Rightarrow> string" where
  "string_of_nat n =
     (if n < 10 then [''0123456789'' ! n]
      else string_of_nat (n div 10) @ [''0123456789'' ! (n mod 10)])"
  by pat_completeness auto
termination
  by (relation "measure (\<lambda>n. n)") auto

declare string_of_nat.simps [simp del]

text \<open>
  \<open>createTab(name?, initialQuery?)\<close>. The identifier that \<open>generateId()\<close> draws from
  the clock and the random generator is the first argument \<open>newId\<close>; an argument
  left out is \<open>None\<close>. The result is the returned id and the new state.
\<close>

definition createTab ::
  "string \<Rightarrow> string option \<Rightarrow> string option \<Rightarrow> TabsStore \<Rightarrow> string \<times> TabsStore" where
  "createTab newId name initialQuery s =
     (let newTab = \<lparr>tab_id = newId,
                     tab_name = (case name of
                                   None \<Rightarrow> ''Query '' @ string_of_nat (length (tabs s) + 1)
                                 | Some n \<Rightarrow> if n = [] then ''Query '' @ string_of_nat (length (tabs s) + 1)
                                            else n),
                     tab_query = (case initialQuery of None \<Rightarrow> [] | Some q \<Rightarrow> q),
                     isActive = Some False,
                     isSaved = Some False,
                     hasChanges = False,
                     tab_isExecuting = None,
                     lastModified = None\<rparr>;
          s1 = s\<lparr>tabs := tabs s @ [newTab]\<rparr>;
          s2 = setActiveTab newId s1
      in (newId, saveToStorage s2))"

definition createDefaultTab :: "string \<Rightarrow> TabsStore \<Rightarrow> string \<times> TabsStore" where
  "createDefaultTab newId s =
     (let defaultQuery = ''SELECT * FROM orders LIMIT 20''
      in createTab newId (Some ''Sample Query'') (Some defaultQuery) s)"

text \<open>\<open>Array.prototype.findIndex\<close>, with \<open>None\<close> for its \<open>-1\<close>.\<close>

fun findIndex :: "('a \<Rightarrow> bool) \<Rightarrow> 'a list \<Rightarrow> nat option" where
  "findIndex P [] = None"
| "findIndex P (x # xs) =
     (if P x then Some 0 else (case findIndex P xs of None \<Rightarrow> None | Some i \<Rightarrow> Some (Suc i)))"

text \<open>
  \<open>closeTab(tabId)\<close>; \<open>newId\<close> is the identifier \<open>generateId()\<close> would return should the
  default tab have to be created.
\<close>

definition closeTab :: "string \<Rightarrow> string \<Rightarrow> TabsStore \<Rightarrow> TabsStore" where
  "closeTab newId tabId s =
     (case findIndex (\<lambda>t. tab_id t = tabId) (tabs s) of
        None \<Rightarrow> s
      | Some tabIndex \<Rightarrow>
          (let wasActive = truthy (isActive (tabs s ! tabIndex));
               s1 = s\<lparr>tabs := filter (\<lambda>tab. tab_id tab \<noteq> tabId) (tabs s)\<rparr>;
               s2 = (if wasActive \<and> length (tabs s1) > 0 then
                       (let newActiveIndex = min tabIndex (length (tabs s1) - 1)
                        in setActiveTab (tab_id (tabs s1 ! newActiveIndex)) s1)
                     else if length (tabs s1) = 0 then snd (createDefaultTab newId s1)
                     else s1)
           in saveToStorage s2))"

text \<open>
  \<open>savedActiveId || savedTabs[0]?.id || ''\<close>: the first of the two strings that is not
  empty, else the empty string.
\<close>

definition activeIdOrFirst :: "string \<Rightarrow> QueryTab list \<Rightarrow> string" where
  "activeIdOrFirst savedActiveId savedTabs =
     (if savedActiveId \<noteq> [] then savedActiveId
      else (case savedTabs of [] \<Rightarrow> [] | t # _ \<Rightarrow> tab_id t))"

definition initializeSSR :: "QueryTab list \<Rightarrow> string \<Rightarrow> TabsStore \<Rightarrow> TabsStore" where
  "initializeSSR initialTabs initialActiveId s =
     (if browser s then s
      else s\<lparr>tabs := map (\<lambda>tab. tab\<lparr>isActive := Some (tab_id tab = initialActiveId),
                                      isSaved := Some True\<rparr>) initialTabs,
             activeTabId := initialActiveId\<rparr>)"

definition initialize :: "string \<Rightarrow> TabsStore \<Rightarrow> TabsStore" where
  "initialize newId s =
     (if \<not> browser s then s
      else if length (tabs s) > 0 then
        (let savedTabs = storage_get (stored_tabs s) [];
             savedActiveId = storage_get (stored_activeTabId s) []
         in if length savedTabs > 0
            then s\<lparr>tabs := savedTabs, activeTabId := activeIdOrFirst savedActiveId savedTabs\<rparr>
            else s)
      else
        (let savedTabs = storage_get (stored_tabs s) [];
             savedActiveId = storage_get (stored_activeTabId s) []
         in if length savedTabs = 0
            then (let (defaultId, s1) = createTab newId (Some ''Sample Query'')
                                          (Some ''SELECT * FROM orders LIMIT 20'') s
                  in s1\<lparr>activeTabId := defaultId\<rparr>)
            else s\<lparr>tabs := savedTabs, activeTabId := activeIdOrFirst savedActiveId savedTabs\<rparr>))"

text \<open>The store as the module creates it, before any call.\<close>

definition emptyTabsStore :: "bool \<Rightarrow> TabsStore" where
  "emptyTabsStore b =
     \<lparr>tabs = [], activeTabId = [], browser = b, stored_tabs = None, stored_activeTabId = None\<rparr>"

text \<open>Sequences of the three calls the invariants speak of.\<close>

datatype TabOp =
    CreateTab string "string option" "string option"
  | SetActiveTab string
  | CloseTab string string

fun applyOp :: "TabOp \<Rightarrow> TabsStore \<Rightarrow> TabsStore" where
  "applyOp (CreateTab newId name initialQuery) s = snd (createTab newId name initialQuery s)"
| "applyOp (SetActiveTab tabId) s = setActiveTab tabId s"
| "applyOp (CloseTab newId tabId) s = closeTab newId tabId s"

fun runOps :: "TabOp list \<Rightarrow> TabsStore \<Rightarrow> TabsStore" where
  "runOps [] s = s"
| "runOps (op # ops) s = runOps ops (applyOp op s)"

definition activeCount :: "TabsStore \<Rightarrow> nat" where
  "activeCount s = length (filter (\<lambda>t. truthy (isActive t)) (tabs s))"

definition tabIds :: "TabsStore \<Rightarrow> string list" where
  "tabIds s = map tab_id (tabs s)"

text \<open>
  A call is guarded when \<open>generateId\<close> hands out an identifier no tab has yet and
  \<open>setActiveTab\<close> is given the identifier of a tab of the registry.
\<close>

fun guardedOp :: "TabOp \<Rightarrow> TabsStore \<Rightarrow> bool" where
  "guardedOp (CreateTab newId name initialQuery) s = (newId \<notin> set (tabIds s))"
| "guardedOp (SetActiveTab tabId) s = (tabId \<in> set (tabIds s))"
| "guardedOp (CloseTab newId tabId) s = True"

fun guardedOps :: "TabOp list \<Rightarrow> TabsStore \<Rightarrow> bool" where
  "guardedOps [] s = True"
| "guardedOps (op # ops) s = (guardedOp op s \<and> guardedOps ops (applyOp op s))"

definition oneActive :: "TabsStore \<Rightarrow> bool" where
  "oneActive s = (distinct (tabIds s) \<and> activeCount s = 1)"

text \<open>
  The tab list the page's \<open>load\<close> function supplies for the first render (+page.ts),
  with the time \<open>now\<close> of the render, and the registry \<open>initializeSSR\<close> makes of it.
\<close>

definition initialTabs :: "int \<Rightarrow> QueryTab list" where
  "initialTabs now =
     [\<lparr>tab_id = ''default-tab'', tab_name = ''Sample Query'',
       tab_query = ''SELECT * FROM orders LIMIT 20'',
       isActive = None, isSaved = None, hasChanges = False,
       tab_isExecuting = Some False, lastModified = Some now\<rparr>]"

definition preseeded :: "int \<Rightarrow> QueryTab list" where
  "preseeded now = tabs (initializeSSR (initialTabs now) ''default-tab'' (emptyTabsStore False))"

section \<open>The result cache (stores.svelte.ts, createQueryResultsStore)\<close>

text \<open>
  A \<open>QueryResult\<close> of utils/index.ts. The execution time is in milliseconds, the time
  stamp a number of milliseconds.
\<close>

datatype Status = Success | Error | Pending

record QueryResult =
  res_id :: string
  res_name :: string
  res_query :: string
  data :: "row list"
  executionTime :: rat
  rowCount :: nat
  status :: Status
  timestamp :: int

text \<open>
  The closure state of \<open>createQueryResultsStore\<close>. The \<open>Map\<close> from tab id to result is
  the list of its entries in insertion order: \<open>Map.prototype.set\<close> is \<open>AList.update\<close>
  (an entry that is there keeps its place, a new one goes last) and
  \<open>Map.prototype.delete\<close> is \<open>AList.delete\<close>. \<open>rs_stored\<close> is the local-storage entry
  \<open>query-results\<close>.
\<close>

record ResultsStore =
  results :: "(string \<times> QueryResult) list"
  isExecuting :: bool
  currentQueryId :: string
  currentResult :: "QueryResult option"
  rs_browser :: bool
  rs_stored :: "(string \<times> QueryResult) list option"

definition emptyResultsStore :: "bool \<Rightarrow> ResultsStore" where
  "emptyResultsStore b =
     \<lparr>results = [], isExecuting = False, currentQueryId = [], currentResult = None,
      rs_browser = b, rs_stored = None\<rparr>"

definition rs_saveToStorage :: "ResultsStore \<Rightarrow> ResultsStore" where
  "rs_saveToStorage s = (if \<not> rs_browser s then s else s\<lparr>rs_stored := Some (results s)\<rparr>)"

text \<open>\<open>new Map(entries)\<close>: the entries are set one after the other.\<close>

definition newMap :: "(string \<times> 'v) list \<Rightarrow> (string \<times> 'v) list" where
  "newMap entries = foldl (\<lambda>m (k, v). AList.update k v m) [] entries"

definition rs_initialize :: "ResultsStore \<Rightarrow> ResultsStore" where
  "rs_initialize s =
     (if \<not> rs_browser s then s
      else s\<lparr>results := newMap (storage_get (rs_stored s) [])\<rparr>)"

definition getResult :: "string \<Rightarrow> ResultsStore \<Rightarrow> QueryResult option" where
  "getResult tabId s = map_of (results s) tabId"

definition setCurrentResult :: "QueryResult option \<Rightarrow> ResultsStore \<Rightarrow> ResultsStore" where
  "setCurrentResult result s = s\<lparr>currentResult := result\<rparr>"

text \<open>
  \<open>executeQuery(tabId, query)\<close> of the store. What the awaited import and the awaited
  execution service deliver is the argument \<open>outcome\<close>: \<open>Inr result\<close> when the promise
  resolves, \<open>Inl e\<close> when it rejects with \<open>e\<close>. \<open>errorId\<close> and \<open>now\<close> are what
  \<open>generateId()\<close> and \<open>new Date()\<close> give in the \<open>catch\<close> block. The call is taken as a
  whole: what other calls do while it is suspended is not modelled. The three parts below
  are the statements before \<open>try\<close>, the \<open>try\<close> with its \<open>catch\<close>, and \<open>finally\<close>.
\<close>

definition executeQuery_try ::
  "string \<Rightarrow> string \<Rightarrow> 'e + QueryResult \<Rightarrow> string \<Rightarrow> int \<Rightarrow> ResultsStore \<Rightarrow> ResultsStore" where
  "executeQuery_try tabId query outcome errorId now s =
     (case outcome of
        Inr result \<Rightarrow>
          rs_saveToStorage
            (s\<lparr>results := AList.update tabId result (results s), currentResult := Some result\<rparr>)
      | Inl e \<Rightarrow>
          (let errorResult = \<lparr>res_id = errorId, res_name = ''Error'', res_query = query,
                               data = [], executionTime = 0, rowCount = 0, status = Error,
                               timestamp = now\<rparr>
           in s\<lparr>results := AList.update tabId errorResult (results s),
                currentResult := Some errorResult\<rparr>))"

definition executeQuery ::
  "string \<Rightarrow> string \<Rightarrow> 'e + QueryResult \<Rightarrow> string \<Rightarrow> int \<Rightarrow> ResultsStore \<Rightarrow> ResultsStore" where
  "executeQuery tabId query outcome errorId now s =
     (if trim query = [] then s
      else (let s1 = s\<lparr>isExecuting := True, currentQueryId := tabId\<rparr>;
                s2 = executeQuery_try tabId query outcome errorId now s1
            in s2\<lparr>isExecuting := False, currentQueryId := []\<rparr>))"

definition clearResult :: "string \<Rightarrow> ResultsStore \<Rightarrow> ResultsStore" where
  "clearResult tabId s = rs_saveToStorage (s\<lparr>results := AList.delete tabId (results s)\<rparr>)"

definition clearAllResults :: "ResultsStore \<Rightarrow> ResultsStore" where
  "clearAllResults s = rs_saveToStorage (s\<lparr>results := []\<rparr>)"

section \<open>Pagination and cells (the results panel component)\<close>

text \<open>
  \<open>Array.prototype.slice(start, end)\<close> with integer arguments: a negative index counts
  from the end, and both are clamped to the array.
\<close>

definition slice :: "'a list \<Rightarrow> int \<Rightarrow> int \<Rightarrow> 'a list" where
  "slice xs start end' =
     (let len = int (length xs);
          k = (if start < 0 then max (len + start) 0 else min start len);
          final = (if end' < 0 then max (len + end') 0 else min end' len)
      in take (nat (final - k)) (drop (nat k) xs))"

text \<open>
  The derived values of the panel, as functions of the runes they read: the result shown
  (\<open>None\<close> for \<open>null\<close>), the current page and the page size \<open>rowsPerPage\<close>, a rune that
  starts at 50 and is never assigned. The model takes any positive page size; for a page
  size of 0 JavaScript's division gives \<open>Infinity\<close> or \<open>NaN\<close>, which the integer
  \<open>totalPages\<close> below does not show.
\<close>

definition totalPages :: "QueryResult option \<Rightarrow> nat \<Rightarrow> int" where
  "totalPages cr rowsPerPage =
     (case cr of
        None \<Rightarrow> 0
      | Some r \<Rightarrow> \<lceil>(of_nat (length (data r)) :: rat) / of_nat rowsPerPage\<rceil>)"

definition startIndex :: "int \<Rightarrow> nat \<Rightarrow> int" where
  "startIndex currentPage rowsPerPage = (currentPage - 1) * int rowsPerPage"

definition endIndex :: "QueryResult option \<Rightarrow> int \<Rightarrow> nat \<Rightarrow> int" where
  "endIndex cr currentPage rowsPerPage =
     min (startIndex currentPage rowsPerPage + int rowsPerPage)
         (case cr of None \<Rightarrow> 0 | Some r \<Rightarrow> int (length (data r)))"

definition paginatedData :: "QueryResult option \<Rightarrow> int \<Rightarrow> nat \<Rightarrow> row list" where
  "paginatedData cr currentPage rowsPerPage =
     (case cr of
        None \<Rightarrow> []
      | Some r \<Rightarrow> slice (data r) (startIndex currentPage rowsPerPage)
                                  (endIndex cr currentPage rowsPerPage))"

definition columns :: "QueryResult option \<Rightarrow> string list" where
  "columns cr =
     (case cr of
        None \<Rightarrow> []
      | Some r \<Rightarrow> (case data r of [] \<Rightarrow> [] | first # _ \<Rightarrow> map fst first))"

text \<open>\<open>goToPage(page)\<close>: the new value of the current page.\<close>

definition goToPage :: "int \<Rightarrow> QueryResult option \<Rightarrow> nat \<Rightarrow> int" where
  "goToPage page cr rowsPerPage = max 1 (min page (totalPages cr rowsPerPage))"

text \<open>
  \<open>formatCellValue\<close> and \<open>getCellClass\<close>. The test \<open>/^\d{4}-\d{2}-\d{2}/\<close> is
  \<open>looksLikeDate\<close>.
\<close>

definition looksLikeDate :: "string \<Rightarrow> bool" where
  "looksLikeDate s =
     (length s \<ge> 10 \<and>
      list_all isDigit (take 4 s) \<and> s ! 4 = CHR ''-'' \<and>
      list_all isDigit (take 2 (drop 5 s)) \<and> s ! 7 = CHR ''-'' \<and>
      list_all isDigit (take 2 (drop 8 s)))"

fun formatCellValue :: "platform \<Rightarrow> jsval \<Rightarrow> string" where
  "formatCellValue P JNull = []"
| "formatCellValue P JUndefined = []"
| "formatCellValue P (JBool b) = (if b then ''true'' else ''false'')"
| "formatCellValue P (JNum n) =
     (if absGe n 1000 then toLocaleString P n else numberToString P n)"
| "formatCellValue P (JStr s) = (if length s > 100 then take 97 s @ ''...'' else s)"
| "formatCellValue P (JArr vs) =
     (case jsonStringify P (JArr vs) of None \<Rightarrow> ''undefined'' | Some t \<Rightarrow> t)"
| "formatCellValue P (JObj ps) =
     (case jsonStringify P (JObj ps) of None \<Rightarrow> ''undefined'' | Some t \<Rightarrow> t)"

fun getCellClass :: "jsval \<Rightarrow> string" where
  "getCellClass JNull = ''cell-null''"
| "getCellClass JUndefined = ''cell-null''"
| "getCellClass (JNum n) = ''cell-number''"
| "getCellClass (JBool b) = ''cell-boolean''"
| "getCellClass (JStr s) =
     (if looksLikeDate s then ''cell-date''
      else if CHR ''@'' \<in> set s \<and> CHR ''.'' \<in> set s then ''cell-email''
      else ''cell-string'')"
| "getCellClass (JArr vs) = ''cell-object''"
| "getCellClass (JObj ps) = ''cell-object''"

section \<open>CSV text (utils/index.ts: parseCSV, parseCSVLine, exportToCSV)\<close>

text \<open>
  \<open>content.split(/\r?\n/)\<close>: the pieces between line breaks, a carriage return right
  before a line feed belonging to the break. The result has at least one piece.
\<close>

fun splitLines :: "string \<Rightarrow> string list" where
  "splitLines [] = [[]]"
| "splitLines (c # cs) =
     (if c = LF then [] # splitLines cs
      else if c = CR \<and> cs \<noteq> [] \<and> hd cs = LF then [] # splitLines (tl cs)
      else (case splitLines cs of
              [] \<Rightarrow> [[c]]
            | l # ls \<Rightarrow> (c # l) # ls))"

text \<open>
  \<open>parseCSVLine\<close>. The \<open>while\<close> loop walks the line by an index; here the argument is
  the rest of the line from that index on, and \<open>current\<close>, \<open>inQuotes\<close> and \<open>result\<close>
  are the loop's variables. Reading \<open>line[i + 1]\<close> past the end gives \<open>undefined\<close>,
  which is no quote.
\<close>

fun parseCSVLoop :: "string \<Rightarrow> string \<Rightarrow> bool \<Rightarrow> string list \<Rightarrow> string list" where
  "parseCSVLoop [] current inQuotes result = result @ [trim current]"
| "parseCSVLoop (c # cs) current inQuotes result =
     (if c = CHR 0x22 then
        (if inQuotes \<and> cs \<noteq> [] \<and> hd cs = CHR 0x22
         then parseCSVLoop (tl cs) (current @ [CHR 0x22]) inQuotes result
         else parseCSVLoop cs current (\<not> inQuotes) result)
      else if c = CHR '','' \<and> \<not> inQuotes then
        parseCSVLoop cs [] inQuotes (result @ [trim current])
      else parseCSVLoop cs (current @ [c]) inQuotes result)"

definition parseCSVLine :: "string \<Rightarrow> string list" where
  "parseCSVLine line = parseCSVLoop line [] False []"

text \<open>
  \<open>row[header] = value\<close> on a plain object: a property that is there keeps its place,
  a new one goes last. The name \<open>__proto__\<close> is the accessor of \<open>Object.prototype\<close>,
  whose setter ignores a string, so that assignment adds nothing.
\<close>

definition assign :: "row \<Rightarrow> string \<Rightarrow> jsval \<Rightarrow> row" where
  "assign r key v = (if key = ''__proto__'' then r else AList.update key v r)"

definition makeRow :: "string list \<Rightarrow> string list \<Rightarrow> row" where
  "makeRow headers values =
     foldl (\<lambda>r (header, v). assign r header (JStr v)) [] (zip headers values)"

definition parseCSV :: "string \<Rightarrow> row list" where
  "parseCSV csvContent =
     (case splitLines (trim csvContent) of
        [] \<Rightarrow> []
      | first # rest \<Rightarrow>
          (let headers = parseCSVLine first
           in concat (map (\<lambda>line. let values = parseCSVLine line
                                   in if length values = length headers
                                      then [makeRow headers values] else [])
                          rest)))"

text \<open>
  \<open>exportToCSV\<close>. What the function does is hand a text and a file name to the browser
  for download; the model returns the two, and \<open>None\<close> when it returns before that:
  outside a browser, or for an empty result set. \<open>csvField\<close> is the inner arrow
  function, whose result \<open>join\<close> then turns into text.
\<close>

definition needsQuotes :: "string \<Rightarrow> bool" where
  "needsQuotes s = (CHR '','' \<in> set s \<or> CHR 0x22 \<in> set s \<or> LF \<in> set s)"

definition doubleQuotes :: "string \<Rightarrow> string" where
  "doubleQuotes s = concat (map (\<lambda>c. if c = CHR 0x22 then [CHR 0x22, CHR 0x22] else [c]) s)"

definition csvField :: "jsval \<Rightarrow> jsval" where
  "csvField v =
     (case v of
        JStr s \<Rightarrow> if needsQuotes s then JStr ([CHR 0x22] @ doubleQuotes s @ [CHR 0x22]) else v
      | _ \<Rightarrow> v)"

definition csvContent :: "platform \<Rightarrow> row list \<Rightarrow> string" where
  "csvContent P rows =
     (let headers = map fst (hd rows)
      in join [LF]
           (join '','' headers #
            map (\<lambda>r. join '','' (map (\<lambda>header. joinElement P (csvField (getProp r header)))
                                     headers))
                rows))"

definition exportToCSV :: "platform \<Rightarrow> bool \<Rightarrow> row list \<Rightarrow> string \<Rightarrow> (string \<times> string) option" where
  "exportToCSV P inBrowser rows filename =
     (if \<not> inBrowser then None
      else if rows = [] then None
      else Some (csvContent P rows, filename))"

text \<open>
  Result sets that come back from their exported text. A text is clean when it has no
  white space at either end, plain when it is clean and has no line feed, bare when it
  has no comma and no double quote either. A cell can be exported when it is a plain string, or another value whose
  text (what \<open>join\<close> makes of it) is bare. A result set can be exported when it has a
  row; the first row has a column; the column names are pairwise distinct, bare and not
  \<open>__proto__\<close>; every row has the columns of the first, in their order, and cells that
  can be exported; and neither the header line nor the last line of the text is empty,
  which for a single column asks for a name and a last cell that are not empty.
  \<open>asParsed\<close> is the result set with every cell replaced by its text.
\<close>

definition clean :: "string \<Rightarrow> bool" where
  "clean s = (s = [] \<or> (\<not> isSpace (hd s) \<and> \<not> isSpace (last s)))"

definition plainText :: "string \<Rightarrow> bool" where
  "plainText s = (LF \<notin> set s \<and> clean s)"

definition bareText :: "string \<Rightarrow> bool" where
  "bareText s = (plainText s \<and> CHR '','' \<notin> set s \<and> CHR 0x22 \<notin> set s)"

definition exportableCell :: "platform \<Rightarrow> jsval \<Rightarrow> bool" where
  "exportableCell P v = (case v of JStr s \<Rightarrow> plainText s | _ \<Rightarrow> bareText (joinElement P v))"

definition exportableRows :: "platform \<Rightarrow> row list \<Rightarrow> bool" where
  "exportableRows P rows =
     (rows \<noteq> [] \<and>
      (let headers = map fst (hd rows)
       in headers \<noteq> [] \<and> headers \<noteq> [[]] \<and> distinct headers \<and>
          ''__proto__'' \<notin> set headers \<and>
          (\<forall>h\<in>set headers. bareText h) \<and>
          (\<forall>r\<in>set rows. map fst r = headers \<and> (\<forall>p\<in>set r. exportableCell P (snd p))) \<and>
          map (\<lambda>p. joinElement P (snd p)) (last rows) \<noteq> [[]]))"

definition asParsed :: "platform \<Rightarrow> row list \<Rightarrow> row list" where
  "asParsed P rows = map (map (\<lambda>p. (fst p, JStr (joinElement P (snd p))))) rows"

section \<open>The query execution service (utils/index.ts: executeQuery, applyQueryFiltering)\<close>

text \<open>
  The three regular expressions of \<open>applyQueryFiltering\<close>, each as the function that
  tries it at the start of a string and gives the captured group; \<open>firstMatch\<close> tries the
  positions from left to right, as \<open>String.prototype.match\<close> does. In each expression a
  repeated class is followed by something outside the class, so taking the longest run
  is the only way to match.
\<close>

fun firstMatch :: "(string \<Rightarrow> 'a option) \<Rightarrow> string \<Rightarrow> 'a option" where
  "firstMatch m [] = m []"
| "firstMatch m (c # cs) =
     (case m (c # cs) of Some x \<Rightarrow> Some x | None \<Rightarrow> firstMatch m cs)"

text \<open>\<open>/limit\s+(\d+)/\<close>\<close>

definition limitAt :: "string \<Rightarrow> string option" where
  "limitAt s =
     (case stripPrefix ''limit'' s of
        None \<Rightarrow> None
      | Some r \<Rightarrow>
          (let ds = takeWhile isDigit (dropWhile isSpace r)
           in if takeWhile isSpace r = [] \<or> ds = [] then None else Some ds))"

text \<open>\<open>/shipcountry\s*=\s*['"]([^'"]+)['"]/\<close>\<close>

definition isQuote :: "char \<Rightarrow> bool" where
  "isQuote c = (c = CHR 0x27 \<or> c = CHR 0x22)"

definition countryAt :: "string \<Rightarrow> string option" where
  "countryAt s =
     (case stripPrefix ''shipcountry'' s of
        None \<Rightarrow> None
      | Some r \<Rightarrow>
          (case stripPrefix ''='' (dropWhile isSpace r) of
             None \<Rightarrow> None
           | Some r1 \<Rightarrow>
               (case dropWhile isSpace r1 of
                  [] \<Rightarrow> None
                | q # r2 \<Rightarrow>
                    if isQuote q \<and> takeWhile (\<lambda>c. \<not> isQuote c) r2 \<noteq> []
                       \<and> dropWhile (\<lambda>c. \<not> isQuote c) r2 \<noteq> []
                    then Some (takeWhile (\<lambda>c. \<not> isQuote c) r2)
                    else None)))"

text \<open>\<open>/freight\s*>\s*(\d+)/\<close>\<close>

definition freightAt :: "string \<Rightarrow> string option" where
  "freightAt s =
     (case stripPrefix ''freight'' s of
        None \<Rightarrow> None
      | Some r \<Rightarrow>
          (case stripPrefix ''>'' (dropWhile isSpace r) of
             None \<Rightarrow> None
           | Some r1 \<Rightarrow>
               (let ds = takeWhile isDigit (dropWhile isSpace r1)
                in if ds = [] then None else Some ds)))"

text \<open>
  A call that throws is a result \<open>Inl\<close>. \<open>Array.prototype.filter\<close> with a callback that
  may throw stops at the first row where it does.
\<close>

datatype exn = TypeError string | FetchError string

fun filterE :: "('a \<Rightarrow> exn + bool) \<Rightarrow> 'a list \<Rightarrow> exn + 'a list" where
  "filterE f [] = Inr []"
| "filterE f (x # xs) =
     (case f x of
        Inl e \<Rightarrow> Inl e
      | Inr b \<Rightarrow> (case filterE f xs of
                    Inl e \<Rightarrow> Inl e
                  | Inr ys \<Rightarrow> Inr (if b then x # ys else ys)))"

text \<open>
  \<open>row.shipCountry && row.shipCountry.toLowerCase() === country.toLowerCase()\<close>: a
  falsy field ends the test; a truthy one that is no string has no \<open>toLowerCase\<close>, and
  the call throws.
\<close>

definition countryTest :: "string \<Rightarrow> row \<Rightarrow> exn + bool" where
  "countryTest country r =
     (let v = getProp r ''shipCountry''
      in if \<not> truthyVal v then Inr False
         else (case v of
                 JStr s \<Rightarrow> Inr (toLowerCase s = toLowerCase country)
               | _ \<Rightarrow> Inl (TypeError ''row.shipCountry.toLowerCase is not a function'')))"

text \<open>\<open>row.freight && parseFloat(row.freight) > threshold\<close>\<close>

definition freightTest :: "platform \<Rightarrow> number \<Rightarrow> row \<Rightarrow> bool" where
  "freightTest P threshold r =
     (let v = getProp r ''freight''
      in truthyVal v \<and> numGt (parseFloat P v) threshold)"

definition applyLimit :: "string \<Rightarrow> row list \<Rightarrow> row list" where
  "applyLimit lowerQuery rows =
     (case firstMatch limitAt lowerQuery of
        None \<Rightarrow> rows
      | Some ds \<Rightarrow> slice rows 0 (int (digitsValue ds)))"

definition applyCountry :: "string \<Rightarrow> row list \<Rightarrow> exn + row list" where
  "applyCountry lowerQuery rows =
     (case firstMatch countryAt lowerQuery of
        None \<Rightarrow> Inr rows
      | Some country \<Rightarrow> filterE (countryTest country) rows)"

definition applyFreight :: "platform \<Rightarrow> string \<Rightarrow> row list \<Rightarrow> row list" where
  "applyFreight P lowerQuery rows =
     (case firstMatch freightAt lowerQuery of
        None \<Rightarrow> rows
      | Some ds \<Rightarrow> filter (freightTest P (parseFloatStr ds)) rows)"

definition applyQueryFiltering :: "platform \<Rightarrow> row list \<Rightarrow> string \<Rightarrow> exn + row list" where
  "applyQueryFiltering P rows query =
     (let lowerQuery = toLowerCase query;
          limited = applyLimit lowerQuery rows;
          filtered = (if includesStr lowerQuery ''where''
                      then (case applyCountry lowerQuery limited of
                              Inl e \<Rightarrow> Inl e
                            | Inr rs \<Rightarrow> Inr (applyFreight P lowerQuery rs))
                      else Inr limited)
      in case filtered of
           Inl e \<Rightarrow> Inl e
         | Inr rs \<Rightarrow> Inr (if length rs > 1000 then slice rs 0 1000 else rs))"

text \<open>
  \<open>loadCSVData\<close>. What \<open>fetch\<close> delivers is an argument: \<open>Inl e\<close> when it rejects, else
  the response with its \<open>ok\<close> flag, its status text and its body.
\<close>

record response =
  ok :: bool
  statusText :: string
  body :: string

definition loadCSVData :: "exn + response \<Rightarrow> exn + row list" where
  "loadCSVData fetched =
     (case fetched of
        Inl e \<Rightarrow> Inl e
      | Inr resp \<Rightarrow>
          if \<not> ok resp then Inl (FetchError (''Failed to load CSV: '' @ statusText resp))
          else Inr (parseCSV (body resp)))"

text \<open>
  \<open>generateMockData\<close> picks one of four generators by the words of the query. What a
  generator returns is random; the four row lists are arguments.
\<close>

record generators =
  customerData :: "row list"
  orderData :: "row list"
  productData :: "row list"
  genericData :: "row list"

definition generateMockData :: "generators \<Rightarrow> string \<Rightarrow> row list" where
  "generateMockData G query =
     (let lowerQuery = toLowerCase query
      in if includesStr lowerQuery ''customer'' \<or> includesStr lowerQuery ''user''
         then customerData G
         else if includesStr lowerQuery ''order'' \<or> includesStr lowerQuery ''purchase''
         then orderData G
         else if includesStr lowerQuery ''product'' \<or> includesStr lowerQuery ''item''
         then productData G
         else genericData G)"

text \<open>
  The rows \<open>executeQuery\<close> of the service puts into its result, \<open>mockData\<close>, and the
  result itself. \<open>elapsed\<close>, \<open>newId\<close> and \<open>now\<close> are the measured time, the generated
  identifier and the date of completion.
\<close>

definition mockData :: "platform \<Rightarrow> generators \<Rightarrow> exn + response \<Rightarrow> string \<Rightarrow> row list" where
  "mockData P G fetched query =
     (if includesStr (toLowerCase query) ''orders'' \<or> includesStr (toLowerCase query) ''order''
      then (case loadCSVData fetched of
              Inl e \<Rightarrow> generateMockData G query
            | Inr rows \<Rightarrow>
                (case applyQueryFiltering P rows query of
                   Inl e \<Rightarrow> generateMockData G query
                 | Inr rs \<Rightarrow> rs))
      else generateMockData G query)"

definition serviceExecuteQuery ::
  "platform \<Rightarrow> generators \<Rightarrow> exn + response \<Rightarrow> rat \<Rightarrow> string \<Rightarrow> int \<Rightarrow>
   string \<Rightarrow> string option \<Rightarrow> QueryResult" where
  "serviceExecuteQuery P G fetched elapsed newId now query queryName =
     \<lparr>res_id = newId,
      res_name = (case queryName of
                    None \<Rightarrow> ''Untitled Query''
                  | Some n \<Rightarrow> if n = [] then ''Untitled Query'' else n),
      res_query = query,
      data = mockData P G fetched query,
      executionTime = elapsed,
      rowCount = length (mockData P G fetched query),
      status = Success,
      timestamp = now\<rparr>"

text \<open>A row as the CSV parser builds it: every property is a string.\<close>

definition stringRow :: "row \<Rightarrow> bool" where
  "stringRow r = (\<forall>p\<in>set r. \<exists>s. snd p = JStr s)"

text \<open>The two queries of the filtering scenario.\<close>

definition franceQuery :: string where
  "franceQuery =
     ''SELECT * FROM orders WHERE shipCountry = '' @ [CHR 0x27] @ ''France'' @ [CHR 0x27] @
     '' LIMIT 5''"

definition freightQuery :: string where
  "freightQuery = ''SELECT * FROM orders WHERE freight > 100''"

section \<open>Values for the examples\<close>

text \<open>
  A platform to evaluate examples with: it writes an integer as an en-US engine does,
  plainly and with grouping. The examples apply it to integers only; a number that is
  no integer is written as its integer part.
\<close>

definition showInt :: "int \<Rightarrow> string" where
  "showInt i = (if i < 0 then CHR ''-'' # string_of_nat (nat (- i)) else string_of_nat (nat i))"

function groupDigits :: "string \<Rightarrow> string" where
  "groupDigits ds =
     (if length ds \<le> 3 then ds
      else groupDigits (take (length ds - 3) ds) @ '','' @ drop (length ds - 3) ds)"
  by pat_completeness auto
termination
  by (relation "measure length") auto

declare groupDigits.simps [simp del]

definition integerToString :: "number \<Rightarrow> string" where
  "integerToString n =
     (case n of
        NaN \<Rightarrow> ''NaN''
      | PosInf \<Rightarrow> ''Infinity''
      | NegInf \<Rightarrow> ''-Infinity''
      | Fin q \<Rightarrow> showInt \<lfloor>q\<rfloor>)"

definition integerToLocaleString :: "number \<Rightarrow> string" where
  "integerToLocaleString n =
     (case n of
        NaN \<Rightarrow> ''NaN''
      | PosInf \<Rightarrow> ''Infinity''
      | NegInf \<Rightarrow> ''-Infinity''
      | Fin q \<Rightarrow> (if q < 0 then CHR ''-'' # groupDigits (string_of_nat (nat (- \<lfloor>q\<rfloor>)))
                  else groupDigits (string_of_nat (nat \<lfloor>q\<rfloor>))))"

definition integerPlatform :: platform where
  "integerPlatform =
     \<lparr>toLocaleString = integerToLocaleString, numberToString = integerToString\<rparr>"

text \<open>A small orders file, a response that delivers it, and generators that return nothing.\<close>

definition ordersCsv :: string where
  "ordersCsv =
     ''orderID,shipCountry,freight'' @ [LF] @
     ''10248,France,32.38'' @ [LF] @
     ''10249,Germany,150'' @ [LF] @
     ''10250,FRANCE,208.58'' @ [LF]"

definition ordersResponse :: response where
  "ordersResponse = \<lparr>ok = True, statusText = ''OK'', body = ordersCsv\<rparr>"

definition noGenerators :: generators where
  "noGenerators = \<lparr>customerData = [], orderData = [], productData = [], genericData = []\<rparr>"

text \<open>A result of three rows.\<close>

definition threeRows :: QueryResult where
  "threeRows =
     \<lparr>res_id = ''r1'', res_name = ''Untitled Query'', res_query = ''SELECT 1'',
      data = [[(''id'', JNum (Fin 1))], [(''id'', JNum (Fin 2))], [(''id'', JNum (Fin 3))]],
      executionTime = 120, rowCount = 3, status = Success, timestamp = 1000\<rparr>"

section \<open>Properties of the tab registry\<close>

subsection \<open>What each call does to the tab list\<close>

lemma saveToStorage_tabs [simp]: "tabs (saveToStorage s) = tabs s"
  by (simp add: saveToStorage_def)

lemma saveToStorage_activeTabId [simp]: "activeTabId (saveToStorage s) = activeTabId s"
  by (simp add: saveToStorage_def)

lemma saveToStorage_browser [simp]: "browser (saveToStorage s) = browser s"
  by (simp add: saveToStorage_def)

lemma setActiveTab_tabs:
  "tabs (setActiveTab tabId s) = map (\<lambda>tab. tab\<lparr>isActive := Some (tab_id tab = tabId)\<rparr>) (tabs s)"
  by (simp add: setActiveTab_def)

lemma setActiveTab_activeTabId [simp]: "activeTabId (setActiveTab tabId s) = tabId"
  by (simp add: setActiveTab_def)

lemma setActiveTab_browser [simp]: "browser (setActiveTab tabId s) = browser s"
  by (simp add: setActiveTab_def)

lemma setActiveTab_tabIds [simp]: "tabIds (setActiveTab tabId s) = tabIds s"
  by (simp add: tabIds_def setActiveTab_tabs o_def)

lemma setActiveTab_activeCount:
  "activeCount (setActiveTab tabId s) = count_list (tabIds s) tabId"
proof -
  have "length (filter (\<lambda>t. truthy (isActive t)) (map (\<lambda>tab. tab\<lparr>isActive := Some (tab_id tab = tabId)\<rparr>) ts))
        = count_list (map tab_id ts) tabId" for ts :: "QueryTab list"
    by (induction ts) auto
  then show ?thesis
    by (simp add: activeCount_def setActiveTab_tabs tabIds_def)
qed

lemma count_list_distinct: "distinct xs \<Longrightarrow> x \<in> set xs \<Longrightarrow> count_list xs x = 1"
  by (induction xs) (auto simp: count_list_0_iff)

lemma setActiveTab_oneActive:
  "distinct (tabIds s) \<Longrightarrow> tabId \<in> set (tabIds s) \<Longrightarrow> oneActive (setActiveTab tabId s)"
  by (simp add: oneActive_def setActiveTab_activeCount count_list_distinct)

lemma createTab_tabs:
  "tabs (snd (createTab newId name q s)) =
   map (\<lambda>tab. tab\<lparr>isActive := Some (tab_id tab = newId)\<rparr>) (tabs s) @
   [\<lparr>tab_id = newId,
     tab_name = (case name of None \<Rightarrow> ''Query '' @ string_of_nat (length (tabs s) + 1)
                 | Some n \<Rightarrow> if n = [] then ''Query '' @ string_of_nat (length (tabs s) + 1) else n),
     tab_query = (case q of None \<Rightarrow> [] | Some q \<Rightarrow> q),
     isActive = Some True, isSaved = Some False, hasChanges = False,
     tab_isExecuting = None, lastModified = None\<rparr>]"
  by (simp add: createTab_def Let_def setActiveTab_tabs)

lemma createTab_tabIds: "tabIds (snd (createTab newId name q s)) = tabIds s @ [newId]"
  by (simp add: tabIds_def createTab_tabs o_def)

lemma createTab_activeCount:
  "activeCount (snd (createTab newId name q s)) = count_list (tabIds s) newId + 1"
proof -
  have "length (filter (\<lambda>t. truthy (isActive t)) (map (\<lambda>tab. tab\<lparr>isActive := Some (tab_id tab = tabId)\<rparr>) ts))
        = count_list (map tab_id ts) tabId" for ts :: "QueryTab list" and tabId
    by (induction ts) auto
  then show ?thesis
    by (simp add: activeCount_def createTab_tabs tabIds_def)
qed

lemma createTab_oneActive:
  "distinct (tabIds s) \<Longrightarrow> newId \<notin> set (tabIds s) \<Longrightarrow> oneActive (snd (createTab newId name q s))"
  by (simp add: oneActive_def createTab_tabIds createTab_activeCount count_list_0_iff)

lemma findIndex_None: "findIndex P xs = None \<longleftrightarrow> (\<forall>x\<in>set xs. \<not> P x)"
  by (induction xs) (auto split: option.splits)

lemma findIndex_Some: "findIndex P xs = Some i \<Longrightarrow> i < length xs \<and> P (xs ! i) \<and> (\<forall>j<i. \<not> P (xs ! j))"
proof (induction xs arbitrary: i)
  case Nil then show ?case by simp
next
  case (Cons x xs)
  then show ?case
    by (auto split: if_splits option.splits simp: nth_Cons split: nat.splits)
qed

lemma distinct_ids_same:
  "distinct (map tab_id ts) \<Longrightarrow> t \<in> set ts \<Longrightarrow> i < length ts \<Longrightarrow> tab_id t = tab_id (ts ! i) \<Longrightarrow> t = ts ! i"
  for ts :: "QueryTab list"
  by (metis distinct_map inj_on_def nth_mem)

lemma closeTab_absent: "tabId \<notin> set (tabIds s) \<Longrightarrow> closeTab newId tabId s = s"
proof -
  assume "tabId \<notin> set (tabIds s)"
  then have "findIndex (\<lambda>t. tab_id t = tabId) (tabs s) = None"
    by (auto simp: findIndex_None tabIds_def)
  then show ?thesis by (simp add: closeTab_def)
qed

lemma closeTab_oneActive:
  assumes inv: "oneActive s"
  shows "oneActive (closeTab newId tabId s)"
proof (cases "findIndex (\<lambda>t. tab_id t = tabId) (tabs s)")
  case None
  then show ?thesis using inv by (simp add: closeTab_def)
next
  case (Some idx)
  define s1 where "s1 = s\<lparr>tabs := filter (\<lambda>tab. tab_id tab \<noteq> tabId) (tabs s)\<rparr>"
  have idx: "idx < length (tabs s)" "tab_id (tabs s ! idx) = tabId"
    using findIndex_Some [OF Some] by auto
  have dist: "distinct (map tab_id (tabs s))" and one: "activeCount s = 1"
    using inv by (simp_all add: oneActive_def tabIds_def)
  have dist1: "distinct (tabIds s1)"
    using dist by (simp add: s1_def tabIds_def distinct_map_filter)
  have oneActive_save: "oneActive (saveToStorage x) = oneActive x" for x
    by (simp add: oneActive_def tabIds_def activeCount_def)
  show ?thesis
  proof (cases "truthy (isActive (tabs s ! idx))")
    case True
    show ?thesis
    proof (cases "tabs s1 = []")
      case True
      have "oneActive (snd (createDefaultTab newId s1))"
        unfolding createDefaultTab_def Let_def
        by (rule createTab_oneActive) (simp_all add: True tabIds_def)
      then show ?thesis
        using Some True \<open>truthy (isActive (tabs s ! idx))\<close>
        by (simp add: closeTab_def Let_def s1_def [symmetric] oneActive_save)
    next
      case False
      let ?k = "min idx (length (tabs s1) - 1)"
      have "0 < length (tabs s1)" using False by simp
      then have "?k < length (tabs s1)" by arith
      then have "tab_id (tabs s1 ! ?k) \<in> set (tabIds s1)"
        by (simp add: tabIds_def)
      then have "oneActive (setActiveTab (tab_id (tabs s1 ! ?k)) s1)"
        using dist1 by (rule setActiveTab_oneActive [rotated])
      then show ?thesis
        using Some False True
        by (simp add: closeTab_def Let_def s1_def [symmetric] oneActive_save)
    qed
  next
    case False
    have keep: "\<forall>t\<in>set (tabs s). truthy (isActive t) \<longrightarrow> tab_id t \<noteq> tabId"
    proof (intro ballI impI notI)
      fix t assume t: "t \<in> set (tabs s)" "truthy (isActive t)" "tab_id t = tabId"
      then have "t = tabs s ! idx"
        using distinct_ids_same [OF dist, of t idx] idx by simp
      with t False show False by simp
    qed
    have "filter (\<lambda>t. truthy (isActive t)) (tabs s1) = filter (\<lambda>t. truthy (isActive t)) (tabs s)"
      unfolding s1_def using keep by (auto intro: filter_cong)
    then have ac: "activeCount s1 = 1"
      using one by (simp add: activeCount_def)
    then have ne: "tabs s1 \<noteq> []"
      by (auto simp: activeCount_def)
    have "oneActive s1"
      using dist1 ac by (simp add: oneActive_def)
    then show ?thesis
      using Some False ne
      by (simp add: closeTab_def Let_def s1_def [symmetric] oneActive_save)
  qed
qed

lemma applyOp_oneActive: "oneActive s \<Longrightarrow> guardedOp op s \<Longrightarrow> oneActive (applyOp op s)"
proof (cases op)
  case (CreateTab newId name q)
  assume "oneActive s" "guardedOp op s"
  then have "distinct (tabIds s)" "newId \<notin> set (tabIds s)"
    using CreateTab by (simp_all add: oneActive_def)
  then show ?thesis using CreateTab by (simp add: createTab_oneActive)
next
  case (SetActiveTab tabId)
  assume "oneActive s" "guardedOp op s"
  then have "distinct (tabIds s)" "tabId \<in> set (tabIds s)"
    using SetActiveTab by (simp_all add: oneActive_def)
  then show ?thesis using SetActiveTab by (simp add: setActiveTab_oneActive)
next
  case (CloseTab newId tabId)
  assume "oneActive s" "guardedOp op s"
  then show ?thesis using CloseTab by (simp add: closeTab_oneActive)
qed

subsection \<open>Exactly one active tab\<close>

text \<open>
  Claim C1, as the code has it. Start from a registry whose tabs have pairwise distinct
  identifiers and in which exactly one tab is active (\<open>oneActive\<close>), and run any
  sequence of \<open>createTab\<close>, \<open>setActiveTab\<close> and \<open>closeTab\<close> calls in which every
  \<open>setActiveTab\<close> names a tab that is in the registry at that moment and every
  identifier \<open>generateId\<close> hands to \<open>createTab\<close> is not yet in use (\<open>guardedOps\<close>).
  Then exactly one tab has the active flag set afterwards. \<open>closeTab\<close> needs no guard.
\<close>

theorem active_tab_uniqueness:
  "oneActive s \<Longrightarrow> guardedOps ops s \<Longrightarrow> activeCount (runOps ops s) = 1"
proof (induction ops arbitrary: s)
  case Nil
  then show ?case by (simp add: oneActive_def)
next
  case (Cons op ops)
  then show ?case by (simp add: applyOp_oneActive)
qed

text \<open>
  The theorem at the registry a browser initialises from empty storage, and four calls
  that create a tab, switch back, and close both tabs.
\<close>

theorem active_tab_uniqueness_witness:
  "oneActive (initialize ''t1'' (emptyTabsStore True)) \<and>
   guardedOps [CreateTab ''t2'' None None, SetActiveTab ''t1'', CloseTab ''t3'' ''t1'',
               CloseTab ''t4'' ''t2'']
     (initialize ''t1'' (emptyTabsStore True)) \<and>
   activeCount (runOps [CreateTab ''t2'' None None, SetActiveTab ''t1'', CloseTab ''t3'' ''t1'',
                        CloseTab ''t4'' ''t2'']
     (initialize ''t1'' (emptyTabsStore True))) = 1"
proof -
  have h1: "oneActive (initialize ''t1'' (emptyTabsStore True))"
    by code_simp
  have h2: "guardedOps [CreateTab ''t2'' None None, SetActiveTab ''t1'', CloseTab ''t3'' ''t1'',
               CloseTab ''t4'' ''t2''] (initialize ''t1'' (emptyTabsStore True))"
    by code_simp
  from active_tab_uniqueness [OF h1 h2] h1 h2 show ?thesis by simp
qed

text \<open>
  Without the guard the claim fails: \<open>setActiveTab\<close> does not look whether the tab
  exists, so one call with an identifier no tab has leaves no tab active.
\<close>

theorem active_tab_uniqueness_counterexample:
  "tabs (initialize ''t1'' (emptyTabsStore True)) \<noteq> [] \<and>
   activeCount (initialize ''t1'' (emptyTabsStore True)) = 1 \<and>
   activeCount (runOps [SetActiveTab ''gone''] (initialize ''t1'' (emptyTabsStore True))) = 0"
  by code_simp

subsection \<open>The registry never becomes empty\<close>

lemma runOps_nonempty: "tabs s \<noteq> [] \<Longrightarrow> tabs (runOps ops s) \<noteq> []"
proof (induction ops arbitrary: s)
  case Nil
  then show ?case by simp
next
  case (Cons op ops)
  have "tabs (applyOp op s) \<noteq> []"
  proof (cases op)
    case (CreateTab newId name q)
    then show ?thesis by (simp add: createTab_tabs)
  next
    case (SetActiveTab tabId)
    then show ?thesis using Cons.prems by (simp add: setActiveTab_tabs)
  next
    case (CloseTab newId tabId)
    then show ?thesis using Cons.prems
      by (auto simp: closeTab_def Let_def createDefaultTab_def createTab_tabs setActiveTab_tabs
               split: option.splits)
  qed
  then show ?case using Cons.IH by simp
qed

lemma initialize_nonempty: "browser s \<Longrightarrow> tabs (initialize newId s) \<noteq> []"
  by (auto simp: initialize_def Let_def case_prod_unfold createTab_tabs)

lemma closeTab_sole:
  "tabs s = [t] \<Longrightarrow>
   tabs (closeTab newId (tab_id t) s) =
     [\<lparr>tab_id = newId, tab_name = ''Sample Query'',
       tab_query = ''SELECT * FROM orders LIMIT 20'',
       isActive = Some True, isSaved = Some False, hasChanges = False,
       tab_isExecuting = None, lastModified = None\<rparr>]"
  by (simp add: closeTab_def Let_def createDefaultTab_def createTab_tabs)

text \<open>
  Claim C2. The registry a browser has initialised holds a tab, whatever storage held;
  no sequence of \<open>createTab\<close>, \<open>closeTab\<close> (and \<open>setActiveTab\<close>) calls empties a
  registry that holds a tab; and closing the only tab leaves exactly one tab, the
  default one: a new identifier, the name \<open>Sample Query\<close>, the query
  \<open>SELECT * FROM orders LIMIT 20\<close>, active, neither saved nor changed.
\<close>

theorem tab_closure_invariant:
  "(browser s \<longrightarrow> tabs (runOps ops (initialize firstId s)) \<noteq> []) \<and>
   (tabs s \<noteq> [] \<longrightarrow> tabs (runOps ops s) \<noteq> []) \<and>
   (tabs s = [t] \<longrightarrow>
      tabs (closeTab newId (tab_id t) s) =
        [\<lparr>tab_id = newId, tab_name = ''Sample Query'',
          tab_query = ''SELECT * FROM orders LIMIT 20'',
          isActive = Some True, isSaved = Some False, hasChanges = False,
          tab_isExecuting = None, lastModified = None\<rparr>])"
  using runOps_nonempty initialize_nonempty closeTab_sole by blast

text \<open>
  The theorem at the freshly initialised browser registry, whose only tab is \<open>t1\<close>.
\<close>

theorem tab_closure_invariant_witness:
  "browser (initialize ''t1'' (emptyTabsStore True)) \<and>
   tabs (initialize ''t1'' (emptyTabsStore True)) =
     [\<lparr>tab_id = ''t1'', tab_name = ''Sample Query'',
       tab_query = ''SELECT * FROM orders LIMIT 20'',
       isActive = Some True, isSaved = Some False, hasChanges = False,
       tab_isExecuting = None, lastModified = None\<rparr>] \<and>
   tabs (runOps [CloseTab ''t2'' ''t1'', CreateTab ''t3'' None None, CloseTab ''t4'' ''t3'',
                 CloseTab ''t5'' ''t2'']
          (initialize ''t1'' (emptyTabsStore True))) \<noteq> [] \<and>
   tabs (closeTab ''t2'' ''t1'' (initialize ''t1'' (emptyTabsStore True))) =
     [\<lparr>tab_id = ''t2'', tab_name = ''Sample Query'',
       tab_query = ''SELECT * FROM orders LIMIT 20'',
       isActive = Some True, isSaved = Some False, hasChanges = False,
       tab_isExecuting = None, lastModified = None\<rparr>]"
proof -
  have b: "browser (initialize ''t1'' (emptyTabsStore True))"
    by code_simp
  have t: "tabs (initialize ''t1'' (emptyTabsStore True)) =
     [\<lparr>tab_id = ''t1'', tab_name = ''Sample Query'',
       tab_query = ''SELECT * FROM orders LIMIT 20'',
       isActive = Some True, isSaved = Some False, hasChanges = False,
       tab_isExecuting = None, lastModified = None\<rparr>]"
    by code_simp
  show ?thesis
    using b t
      tab_closure_invariant [of "initialize ''t1'' (emptyTabsStore True)"
        "[CloseTab ''t2'' ''t1'', CreateTab ''t3'' None None, CloseTab ''t4'' ''t3'',
          CloseTab ''t5'' ''t2'']"
        "''t0''"
        "\<lparr>tab_id = ''t1'', tab_name = ''Sample Query'',
          tab_query = ''SELECT * FROM orders LIMIT 20'',
          isActive = Some True, isSaved = Some False, hasChanges = False,
          tab_isExecuting = None, lastModified = None\<rparr>"
        "''t2''"]
    by simp
qed

subsection \<open>\<open>setActiveTab\<close> with an identifier no tab has\<close>

text \<open>
  Claim C8, as the code has it. For an identifier that no tab of the registry has,
  \<open>setActiveTab\<close> clears the active flag of every tab, sets the active-id pointer to
  that identifier and persists the result; the tabs' order and their other fields stay
  as they were.
\<close>

theorem setActiveTab_absent:
  "tabId \<notin> set (tabIds s) \<Longrightarrow>
   setActiveTab tabId s =
     saveToStorage (s\<lparr>tabs := map (\<lambda>tab. tab\<lparr>isActive := Some False\<rparr>) (tabs s),
                      activeTabId := tabId\<rparr>)"
proof -
  assume absent: "tabId \<notin> set (tabIds s)"
  have eq: "map (\<lambda>tab. tab\<lparr>isActive := Some (tab_id tab = tabId)\<rparr>) (tabs s) =
        map (\<lambda>tab. tab\<lparr>isActive := Some False\<rparr>) (tabs s)"
  proof (rule map_cong)
    fix tab assume "tab \<in> set (tabs s)"
    then have "tab_id tab \<noteq> tabId" using absent by (auto simp: tabIds_def)
    then show "tab\<lparr>isActive := Some (tab_id tab = tabId)\<rparr> = tab\<lparr>isActive := Some False\<rparr>"
      by simp
  qed simp
  show ?thesis unfolding setActiveTab_def eq by (rule refl)
qed

text \<open>The theorem at the freshly initialised browser registry.\<close>

theorem setActiveTab_absent_witness:
  "''gone'' \<notin> set (tabIds (initialize ''t1'' (emptyTabsStore True))) \<and>
   setActiveTab ''gone'' (initialize ''t1'' (emptyTabsStore True)) =
     saveToStorage ((initialize ''t1'' (emptyTabsStore True))
        \<lparr>tabs := map (\<lambda>tab. tab\<lparr>isActive := Some False\<rparr>) (tabs (initialize ''t1'' (emptyTabsStore True))),
         activeTabId := ''gone''\<rparr>)"
proof -
  have h: "''gone'' \<notin> set (tabIds (initialize ''t1'' (emptyTabsStore True)))"
    by code_simp
  from setActiveTab_absent [OF h] h show ?thesis by simp
qed

text \<open>
  The call is not a no-op: the only tab was active and is not any more, and the pointer
  has moved from \<open>t1\<close> to the absent identifier.
\<close>

theorem setActiveTab_absent_counterexample:
  "''gone'' \<notin> set (tabIds (initialize ''t1'' (emptyTabsStore True))) \<and>
   map isActive (tabs (initialize ''t1'' (emptyTabsStore True))) = [Some True] \<and>
   activeTabId (initialize ''t1'' (emptyTabsStore True)) = ''t1'' \<and>
   map isActive (tabs (setActiveTab ''gone'' (initialize ''t1'' (emptyTabsStore True)))) = [Some False] \<and>
   activeTabId (setActiveTab ''gone'' (initialize ''t1'' (emptyTabsStore True))) = ''gone''"
  by code_simp

subsection \<open>\<open>initialize\<close> on a registry that already holds tabs\<close>

text \<open>
  Claim C7, as the code has it. When \<open>initialize\<close> is called on a registry that
  already holds tabs, then in a browser whose storage holds at least one saved tab the
  tab list is replaced by the saved list and the active id by the saved active id (by
  the first saved tab's id when that is empty); otherwise, storage without saved tabs or
  no browser, the tab list and the active id both stay as they are. No default tab is
  created and storage is not written.
\<close>

theorem initialize_preseeded:
  "tabs s \<noteq> [] \<Longrightarrow>
   initialize newId s =
     (if browser s \<and> storage_get (stored_tabs s) [] \<noteq> []
      then s\<lparr>tabs := storage_get (stored_tabs s) [],
             activeTabId := activeIdOrFirst (storage_get (stored_activeTabId s) [])
                              (storage_get (stored_tabs s) [])\<rparr>
      else s)"
  by (simp add: initialize_def Let_def)

text \<open>
  The theorem at the same registry, the stored active id now empty: the stored tab
  list and its first tab's id are taken over.
\<close>

theorem initialize_preseeded_witness:
  "preseeded 0 \<noteq> [] \<and>
   initialize ''t2''
     \<lparr>tabs = preseeded 0, activeTabId = ''default-tab'', browser = True,
      stored_tabs = Some [\<lparr>tab_id = ''t1'', tab_name = ''Query 1'', tab_query = ''SELECT 1'',
                           isActive = Some True, isSaved = Some False, hasChanges = True,
                           tab_isExecuting = None, lastModified = None\<rparr>],
      stored_activeTabId = Some []\<rparr> =
     \<lparr>tabs = [\<lparr>tab_id = ''t1'', tab_name = ''Query 1'', tab_query = ''SELECT 1'',
                           isActive = Some True, isSaved = Some False, hasChanges = True,
                           tab_isExecuting = None, lastModified = None\<rparr>],
      activeTabId = ''t1'', browser = True,
      stored_tabs = Some [\<lparr>tab_id = ''t1'', tab_name = ''Query 1'', tab_query = ''SELECT 1'',
                           isActive = Some True, isSaved = Some False, hasChanges = True,
                           tab_isExecuting = None, lastModified = None\<rparr>],
      stored_activeTabId = Some []\<rparr>"
proof -
  have h: "preseeded 0 \<noteq> []"
    by code_simp
  have h': "tabs \<lparr>tabs = preseeded 0, activeTabId = ''default-tab'', browser = True,
      stored_tabs = Some [\<lparr>tab_id = ''t1'', tab_name = ''Query 1'', tab_query = ''SELECT 1'',
                           isActive = Some True, isSaved = Some False, hasChanges = True,
                           tab_isExecuting = None, lastModified = None\<rparr>],
      stored_activeTabId = Some []\<rparr> \<noteq> []"
    using h by simp
  show ?thesis
    using h initialize_preseeded [OF h', of "''t2''"]
    by (simp add: storage_get_def activeIdOrFirst_def)
qed

text \<open>
  The tab list does change: a browser registry holding the server-rendered tab, with
  one other tab in storage (local storage is shared by the windows of the site), holds
  the stored tab after \<open>initialize\<close>.
\<close>

theorem initialize_preseeded_counterexample:
  "preseeded 0 \<noteq> [] \<and>
   tabs (initialize ''t2''
     \<lparr>tabs = preseeded 0, activeTabId = ''default-tab'', browser = True,
      stored_tabs = Some [\<lparr>tab_id = ''t1'', tab_name = ''Query 1'', tab_query = ''SELECT 1'',
                           isActive = Some True, isSaved = Some False, hasChanges = True,
                           tab_isExecuting = None, lastModified = None\<rparr>],
      stored_activeTabId = Some ''t1''\<rparr>)
   \<noteq> preseeded 0"
  by code_simp

section \<open>Properties of the result cache\<close>

lemma rs_saveToStorage_currentResult [simp]:
  "currentResult (rs_saveToStorage s) = currentResult s"
  by (simp add: rs_saveToStorage_def)

lemma rs_saveToStorage_results [simp]: "results (rs_saveToStorage s) = results s"
  by (simp add: rs_saveToStorage_def)

text \<open>
  Claim C10. \<open>clearResult\<close> and \<open>clearAllResults\<close> take entries out of the stored
  results, the one of the given tab or all of them, and leave the currently displayed
  result as it is, stored or not; so does \<open>initialize\<close>. \<open>setCurrentResult\<close> sets it.
\<close>

theorem clear_keeps_currentResult:
  "currentResult (clearResult tabId s) = currentResult s \<and>
   currentResult (clearAllResults s) = currentResult s \<and>
   currentResult (rs_initialize s) = currentResult s \<and>
   getResult k (clearResult tabId s) = (if k = tabId then None else getResult k s) \<and>
   results (clearAllResults s) = [] \<and>
   currentResult (setCurrentResult r s) = r"
  by (simp add: clearResult_def clearAllResults_def rs_initialize_def getResult_def
        setCurrentResult_def delete_conv')

text \<open>
  After an execution for tab \<open>t1\<close> and \<open>clearResult\<close> for that tab, the displayed
  result is still the one that is no longer stored.
\<close>

theorem clear_keeps_currentResult_witness:
  "currentResult (executeQuery ''t1'' ''SELECT 1'' (Inr threeRows :: unit + QueryResult) ''e1'' 2000 (emptyResultsStore True)) = Some threeRows \<and>
   currentResult (clearResult ''t1'' (executeQuery ''t1'' ''SELECT 1'' (Inr threeRows :: unit + QueryResult) ''e1'' 2000 (emptyResultsStore True))) = Some threeRows \<and>
   getResult ''t1'' (clearResult ''t1'' (executeQuery ''t1'' ''SELECT 1'' (Inr threeRows :: unit + QueryResult) ''e1'' 2000 (emptyResultsStore True))) = None"
proof -
  have "currentResult (executeQuery ''t1'' ''SELECT 1'' (Inr threeRows :: unit + QueryResult) ''e1'' 2000 (emptyResultsStore True)) = Some threeRows"
    by code_simp
  then show ?thesis
    using clear_keeps_currentResult [of "''t1''" "executeQuery ''t1'' ''SELECT 1'' (Inr threeRows :: unit + QueryResult) ''e1'' 2000 (emptyResultsStore True)"]
    by simp
qed

text \<open>
  Claim C4, on a browser store with nothing stored. When the service delivers a result,
  the cache holds it under \<open>t1\<close>, shows it, and has written its entries to storage.
  When the service fails, the cache holds and shows the error result with no rows and no
  time, and both flags are cleared, but storage has not been written: the \<open>catch\<close>
  block does not call \<open>saveToStorage\<close>.
\<close>

theorem executeQuery_failure_not_persisted:
  "executeQuery ''t1'' ''SELECT 1'' (Inr threeRows :: unit + QueryResult) ''e1'' 2000 (emptyResultsStore True) =
     \<lparr>results = [(''t1'', threeRows)], isExecuting = False, currentQueryId = [],
      currentResult = Some threeRows, rs_browser = True,
      rs_stored = Some [(''t1'', threeRows)]\<rparr> \<and>
   executeQuery ''t1'' ''SELECT 1'' (Inl () :: unit + QueryResult) ''e1'' 2000 (emptyResultsStore True) =
     \<lparr>results = [(''t1'', \<lparr>res_id = ''e1'', res_name = ''Error'', res_query = ''SELECT 1'',
                            data = [], executionTime = 0, rowCount = 0, status = Error,
                            timestamp = 2000\<rparr>)],
      isExecuting = False, currentQueryId = [],
      currentResult = Some \<lparr>res_id = ''e1'', res_name = ''Error'', res_query = ''SELECT 1'',
                            data = [], executionTime = 0, rowCount = 0, status = Error,
                            timestamp = 2000\<rparr>,
      rs_browser = True,
      rs_stored = None\<rparr>"
  by code_simp

text \<open>The \<open>finally\<close> block: the flag and the marker are cleared however the call went.\<close>

lemma executeQuery_finally:
  "trim query \<noteq> [] \<Longrightarrow>
   isExecuting (executeQuery tabId query outcome errorId now s) = False \<and>
   currentQueryId (executeQuery tabId query outcome errorId now s) = []"
  by (simp add: executeQuery_def Let_def)

section \<open>Properties of pagination\<close>

lemma concat_pages:
  "concat (map (\<lambda>k. take P (drop (k * P) xs)) [0..<m]) = take (m * P) xs"
proof (induction m)
  case 0
  then show ?case by simp
next
  case (Suc m)
  have "take (m * P) xs @ take P (drop (m * P) xs) = take (m * P + P) xs"
    by (simp add: take_add)
  with Suc show ?case by (simp add: add.commute)
qed

lemma slice_nonneg:
  "0 \<le> i \<Longrightarrow> 0 \<le> j \<Longrightarrow> slice xs i j = take (nat (min j (int (length xs)) - min i (int (length xs)))) (drop (nat (min i (int (length xs)))) xs)"
  by (simp add: slice_def Let_def)

lemma paginatedData_page:
  assumes "1 \<le> p"
  shows "paginatedData (Some r) p P = take P (drop (nat (p - 1) * P) (data r))"
proof -
  let ?xs = "data r"
  let ?s = "(p - 1) * int P"
  have s0: "0 \<le> ?s" using assms by simp
  have e0: "0 \<le> min (?s + int P) (int (length ?xs))" using s0 by simp
  have snat: "nat ?s = nat (p - 1) * P"
    using assms by (simp add: nat_mult_distrib)
  show ?thesis
  proof (cases "?s \<le> int (length ?xs)")
    case True
    then have "slice ?xs ?s (min (?s + int P) (int (length ?xs))) =
               take (nat (min (?s + int P) (int (length ?xs)) - ?s)) (drop (nat ?s) ?xs)"
      using s0 e0 by (simp add: slice_nonneg min_def)
    also have "\<dots> = take P (drop (nat ?s) ?xs)"
    proof (cases "?s + int P \<le> int (length ?xs)")
      case True
      then show ?thesis by simp
    next
      case False
      then have "nat (min (?s + int P) (int (length ?xs)) - ?s) = length ?xs - nat ?s"
        using s0 \<open>?s \<le> int (length ?xs)\<close> by (simp add: min_def nat_diff_distrib)
      moreover have "length ?xs - nat ?s \<le> P"
        using False s0 by linarith
      ultimately show ?thesis by simp
    qed
    finally show ?thesis
      by (simp add: paginatedData_def startIndex_def endIndex_def snat)
  next
    case False
    then have "slice ?xs ?s (min (?s + int P) (int (length ?xs))) = []"
      using s0 e0 by (simp add: slice_nonneg min_def)
    moreover have "drop (nat ?s) ?xs = []"
      using False s0 by simp
    ultimately show ?thesis
      by (simp add: paginatedData_def startIndex_def endIndex_def snat [symmetric])
  qed
qed

lemma upto_as_upt: "0 \<le> n \<Longrightarrow> [1..n] = map (\<lambda>k. int k + 1) [0..<nat n]"
proof (induction "nat n" arbitrary: n)
  case 0
  then show ?case by simp
next
  case (Suc m)
  then have n: "n = int m + 1" by linarith
  have "[1..n] = [1..n - 1] @ [n]"
    using Suc.prems n by (simp add: upto_rec2)
  moreover have "[1..n - 1] = map (\<lambda>k. int k + 1) [0..<nat (n - 1)]"
    using Suc.hyps(1) [of "n - 1"] n by simp
  moreover have "nat n = Suc m" using n by simp
  ultimately show ?case using n by simp
qed

lemma totalPages_covers:
  assumes "0 < P"
  shows "length (data r) \<le> nat (totalPages (Some r) P) * P" and "0 \<le> totalPages (Some r) P"
proof -
  let ?n = "length (data r)"
  let ?q = "(of_nat ?n :: rat) / of_nat P"
  have q0: "0 \<le> ?q" by simp
  then have "- 1 < ?q" by linarith
  then show t0: "0 \<le> totalPages (Some r) P"
    by (simp add: totalPages_def)
  have c: "?q \<le> of_int \<lceil>?q\<rceil>" by (rule le_of_int_ceiling)
  have Ppos: "(0::rat) < of_nat P" using assms by simp
  have "of_nat ?n \<le> (of_int \<lceil>?q\<rceil> :: rat) * of_nat P"
    using c pos_divide_le_eq [OF Ppos, of "of_nat ?n" "of_int \<lceil>?q\<rceil>"] by blast
  also have "(of_int \<lceil>?q\<rceil> :: rat) = of_nat (nat \<lceil>?q\<rceil>)"
    using q0 by simp
  finally have "(of_nat ?n :: rat) \<le> of_nat (nat \<lceil>?q\<rceil> * P)"
    by simp
  then have "?n \<le> nat \<lceil>?q\<rceil> * P"
    using of_nat_le_iff by blast
  then show "?n \<le> nat (totalPages (Some r) P) * P"
    by (simp add: totalPages_def)
qed

lemma totalPages_pos:
  assumes "0 < P" "data r \<noteq> []"
  shows "1 \<le> totalPages (Some r) P"
proof -
  have "0 < (of_nat (length (data r)) :: rat) / of_nat P"
    using assms by simp
  then show ?thesis
    by (simp add: totalPages_def)
qed

text \<open>
  Claim C3. For a result with at least one row and a positive page size, the page slices
  of the pages 1 to \<open>totalPages\<close>, one after the other, are the rows of the result in
  their order; \<open>goToPage(0)\<close> sets the current page to 1 and
  \<open>goToPage(totalPages + 1)\<close> sets it to the last page.
\<close>

theorem pagination_coverage:
  assumes "0 < P" "data r \<noteq> []"
  shows "concat (map (\<lambda>p. paginatedData (Some r) p P) [1..totalPages (Some r) P]) = data r \<and>
         goToPage 0 (Some r) P = 1 \<and>
         goToPage (totalPages (Some r) P + 1) (Some r) P = totalPages (Some r) P"
proof -
  let ?T = "totalPages (Some r) P"
  have T0: "0 \<le> ?T" and cover: "length (data r) \<le> nat ?T * P"
    using totalPages_covers [OF assms(1), of r] by simp_all
  have T1: "1 \<le> ?T" using totalPages_pos [OF assms] .
  have "map (\<lambda>p. paginatedData (Some r) p P) [1..?T] =
        map (\<lambda>k. take P (drop (k * P) (data r))) [0..<nat ?T]"
    by (simp add: upto_as_upt [OF T0] paginatedData_page o_def)
  then have "concat (map (\<lambda>p. paginatedData (Some r) p P) [1..?T]) = take (nat ?T * P) (data r)"
    by (simp add: concat_pages)
  then have "concat (map (\<lambda>p. paginatedData (Some r) p P) [1..?T]) = data r"
    using cover by simp
  moreover have "goToPage 0 (Some r) P = 1"
    using T1 by (simp add: goToPage_def)
  moreover have "goToPage (?T + 1) (Some r) P = ?T"
    using T1 by (simp add: goToPage_def)
  ultimately show ?thesis by simp
qed

text \<open>Three rows in pages of two.\<close>

theorem pagination_coverage_witness:
  "(0::nat) < 2 \<and> data threeRows \<noteq> [] \<and> totalPages (Some threeRows) 2 = 2 \<and>
   paginatedData (Some threeRows) 1 2 = [[(''id'', JNum (Fin 1))], [(''id'', JNum (Fin 2))]] \<and>
   paginatedData (Some threeRows) 2 2 = [[(''id'', JNum (Fin 3))]] \<and>
   paginatedData (Some threeRows) 1 2 @ paginatedData (Some threeRows) 2 2 = data threeRows \<and>
   goToPage 0 (Some threeRows) 2 = 1 \<and>
   goToPage 3 (Some threeRows) 2 = 2"
proof -
  have h1: "(0::nat) < 2" by simp
  have h2: "data threeRows \<noteq> []" by (simp add: threeRows_def)
  have tp: "totalPages (Some threeRows) 2 = 2" by code_simp
  have up: "[1..2::int] = [1, 2]" by code_simp
  have p1: "paginatedData (Some threeRows) 1 2 = [[(''id'', JNum (Fin 1))], [(''id'', JNum (Fin 2))]]"
    by code_simp
  have p2: "paginatedData (Some threeRows) 2 2 = [[(''id'', JNum (Fin 3))]]"
    by code_simp
  from pagination_coverage [OF h1 h2] show ?thesis
    using h2 p1 p2 by (simp add: tp up)
qed

section \<open>Properties of cell formatting\<close>

text \<open>
  Claim C9, as the code has it. \<open>null\<close> and \<open>undefined\<close> format to the empty string
  with the class \<open>cell-null\<close>; the number 1234567 formats as the platform's
  \<open>toLocaleString\<close> writes it, with the class \<open>cell-number\<close>; a string that starts
  like a date has the class \<open>cell-date\<close>; a string with \<open>@\<close> and a full stop that does
  not start like a date has the class \<open>cell-email\<close>; and every string of more than 100
  characters formats as its first 97 characters followed by three full stops.
\<close>

theorem cell_classification:
  "formatCellValue P JNull = [] \<and> getCellClass JNull = ''cell-null'' \<and>
   formatCellValue P JUndefined = [] \<and> getCellClass JUndefined = ''cell-null'' \<and>
   formatCellValue P (JNum (Fin 1234567)) = toLocaleString P (Fin 1234567) \<and>
   getCellClass (JNum (Fin 1234567)) = ''cell-number'' \<and>
   (looksLikeDate s \<longrightarrow> getCellClass (JStr s) = ''cell-date'') \<and>
   (\<not> looksLikeDate s \<and> CHR ''@'' \<in> set s \<and> CHR ''.'' \<in> set s \<longrightarrow>
      getCellClass (JStr s) = ''cell-email'') \<and>
   (length s > 100 \<longrightarrow> formatCellValue P (JStr s) = take 97 s @ ''...'')"
  by simp

text \<open>The theorem at a date, an address and a string of 101 characters.\<close>

theorem cell_classification_witness:
  "looksLikeDate ''2024-01-01'' \<and> getCellClass (JStr ''2024-01-01'') = ''cell-date'' \<and>
   \<not> looksLikeDate ''a@b.com'' \<and> CHR ''@'' \<in> set ''a@b.com'' \<and> CHR ''.'' \<in> set ''a@b.com'' \<and>
   getCellClass (JStr ''a@b.com'') = ''cell-email'' \<and>
   length (replicate 101 CHR ''x'') > 100 \<and>
   formatCellValue integerPlatform (JStr (replicate 101 CHR ''x'')) =
     replicate 97 CHR ''x'' @ ''...'' \<and>
   formatCellValue integerPlatform (JNum (Fin 1234567)) = ''1,234,567''"
proof -
  have d: "looksLikeDate ''2024-01-01''" by code_simp
  have e: "\<not> looksLikeDate ''a@b.com''" by code_simp
  have n: "toLocaleString integerPlatform (Fin 1234567) = ''1,234,567''"
    by (simp add: integerPlatform_def integerToLocaleString_def string_of_nat.simps
          groupDigits.simps)
  have l: "length (replicate 101 CHR ''x'') > 100" by simp
  have t: "take 97 (replicate 101 CHR ''x'') = replicate 97 CHR ''x''" by simp
  from cell_classification [of integerPlatform "''2024-01-01''"] d
  have 1: "getCellClass (JStr ''2024-01-01'') = ''cell-date''" by blast
  from cell_classification [of integerPlatform "''a@b.com''"] e
  have 2: "getCellClass (JStr ''a@b.com'') = ''cell-email''" by simp
  from cell_classification [of integerPlatform "replicate 101 CHR ''x''"] l
  have 3: "formatCellValue integerPlatform (JStr (replicate 101 CHR ''x'')) =
     take 97 (replicate 101 CHR ''x'') @ ''...''" by blast
  from cell_classification [of integerPlatform "[]"] n
  have 4: "formatCellValue integerPlatform (JNum (Fin 1234567)) = ''1,234,567''" by simp
  show ?thesis using d e l 1 2 3 4 unfolding t by simp
qed

text \<open>
  A string with \<open>@\<close> and a full stop that starts like a date is classed as a date, not
  as an address; and a string of 101 characters formats to 100 characters, the last
  three of them full stops, not to 97 characters and one ellipsis character.
\<close>

theorem cell_classification_counterexample:
  "CHR ''@'' \<in> set ''2024-01-01 a@b.com'' \<and> CHR ''.'' \<in> set ''2024-01-01 a@b.com'' \<and>
   getCellClass (JStr ''2024-01-01 a@b.com'') = ''cell-date'' \<and>
   length (replicate 101 CHR ''x'') > 100 \<and>
   length (formatCellValue integerPlatform (JStr (replicate 101 CHR ''x''))) = 100 \<and>
   drop 97 (formatCellValue integerPlatform (JStr (replicate 101 CHR ''x''))) = ''...''"
proof -
  have "getCellClass (JStr ''2024-01-01 a@b.com'') = ''cell-date''" by code_simp
  then show ?thesis by simp
qed

section \<open>Properties of the query execution service\<close>

subsection \<open>The two queries, evaluated\<close>

lemma slice_from_0: "0 \<le> n \<Longrightarrow> slice xs 0 n = take (nat n) xs"
  by (simp add: slice_def Let_def min_def)

lemma franceQuery_lower:
  "toLowerCase franceQuery =
     ''select * from orders where shipcountry = '' @ [CHR 0x27] @ ''france'' @ [CHR 0x27] @
     '' limit 5''"
  by code_simp

lemma franceQuery_limit: "firstMatch limitAt (toLowerCase franceQuery) = Some ''5''"
  by code_simp

lemma franceQuery_country: "firstMatch countryAt (toLowerCase franceQuery) = Some ''france''"
  by code_simp

lemma franceQuery_freight: "firstMatch freightAt (toLowerCase franceQuery) = None"
  by code_simp

lemma franceQuery_where: "includesStr (toLowerCase franceQuery) ''where''"
  by code_simp

lemma franceQuery_orders: "includesStr (toLowerCase franceQuery) ''orders''"
  by code_simp

lemma freightQuery_limit: "firstMatch limitAt (toLowerCase freightQuery) = None"
  by code_simp

lemma freightQuery_country: "firstMatch countryAt (toLowerCase freightQuery) = None"
  by code_simp

lemma freightQuery_freight: "firstMatch freightAt (toLowerCase freightQuery) = Some ''100''"
  by code_simp

lemma freightQuery_where: "includesStr (toLowerCase freightQuery) ''where''"
  by code_simp

lemma freightQuery_orders: "includesStr (toLowerCase freightQuery) ''orders''"
  by code_simp

lemma parseFloatStr_100: "parseFloatStr ''100'' = Fin 100"
  by code_simp

lemma digitsValue_5: "digitsValue ''5'' = 5"
  by code_simp


subsection \<open>Rows of a parsed file\<close>

lemma update_stringRow: "stringRow r \<Longrightarrow> stringRow (AList.update k (JStr s) r)"
  unfolding stringRow_def
  by (induction r) (auto simp: AList.update.simps)

lemma assign_stringRow: "stringRow r \<Longrightarrow> stringRow (assign r k (JStr s))"
  by (simp add: assign_def update_stringRow)

lemma foldl_assign_stringRow:
  "stringRow r \<Longrightarrow> stringRow (foldl (\<lambda>r (header, v). assign r header (JStr v)) r hvs)"
  by (induction hvs arbitrary: r) (auto simp: assign_stringRow)

lemma makeRow_stringRow: "stringRow (makeRow headers values)"
  unfolding makeRow_def by (rule foldl_assign_stringRow) (simp add: stringRow_def)

lemma parseCSV_stringRow: "r \<in> set (parseCSV csv) \<Longrightarrow> stringRow r"
  by (auto simp: parseCSV_def Let_def makeRow_stringRow split: list.splits if_splits)

lemma getProp_stringRow:
  "stringRow r \<Longrightarrow> getProp r k = JUndefined \<or> (\<exists>s. getProp r k = JStr s)"
proof -
  assume sr: "stringRow r"
  show ?thesis
  proof (cases "map_of r k")
    case None
    then show ?thesis by (simp add: getProp_def)
  next
    case (Some v)
    then have "(k, v) \<in> set r" by (rule map_of_SomeD)
    with sr obtain s where "v = JStr s" by (auto simp: stringRow_def)
    with Some show ?thesis by (simp add: getProp_def)
  qed
qed

lemma countryTest_stringRow:
  "stringRow r \<Longrightarrow> country \<noteq> [] \<Longrightarrow>
   countryTest country r =
     Inr (\<exists>s. getProp r ''shipCountry'' = JStr s \<and> toLowerCase s = toLowerCase country)"
  using getProp_stringRow [of r "''shipCountry''"]
  by (auto simp: countryTest_def Let_def toLowerCase_def)

lemma filterE_total:
  "\<forall>x\<in>set xs. f x = Inr (g x) \<Longrightarrow> filterE f xs = Inr (filter g xs)"
  by (induction xs) auto

lemma applyCountry_france:
  assumes "\<forall>r\<in>set rows. stringRow r"
  shows "applyCountry (toLowerCase franceQuery) rows =
         Inr (filter (\<lambda>r. \<exists>s. getProp r ''shipCountry'' = JStr s \<and>
                              toLowerCase s = toLowerCase ''france'') rows)"
  unfolding applyCountry_def franceQuery_country
  using assms by (simp add: filterE_total countryTest_stringRow)

lemma lower_france: "toLowerCase ''france'' = toLowerCase ''France''"
  by code_simp

lemma applyQueryFiltering_france:
  assumes "\<forall>r\<in>set rows. stringRow r"
  shows "applyQueryFiltering P rows franceQuery =
         Inr (filter (\<lambda>r. \<exists>s. getProp r ''shipCountry'' = JStr s \<and>
                              toLowerCase s = toLowerCase ''France'') (take 5 rows))"
proof -
  have lim: "applyLimit (toLowerCase franceQuery) rows = take 5 rows"
    by (simp add: applyLimit_def franceQuery_limit digitsValue_5 slice_from_0)
  have sr: "\<forall>r\<in>set (take 5 rows). stringRow r"
    using assms by (auto dest: in_set_takeD)
  have "length (filter Q (take 5 rows)) \<le> 5" for Q
    by (rule order_trans [OF length_filter_le]) simp
  then have len: "\<not> 1000 < length (filter Q (take 5 rows))" for Q
    by (simp add: not_less order_trans [where y = 5])
  show ?thesis
    unfolding applyQueryFiltering_def Let_def lim
    using franceQuery_where
    by (simp add: applyCountry_france [OF sr] applyFreight_def franceQuery_freight lower_france len)
qed

lemma applyQueryFiltering_freight:
  "applyQueryFiltering P rows freightQuery =
     Inr (take 1000 (filter (freightTest P (Fin 100)) rows))"
proof -
  have lim: "applyLimit (toLowerCase freightQuery) rows = rows"
    by (simp add: applyLimit_def freightQuery_limit)
  show ?thesis
    unfolding applyQueryFiltering_def Let_def lim
    using freightQuery_where
    by (simp add: applyCountry_def freightQuery_country applyFreight_def freightQuery_freight
          parseFloatStr_100 slice_from_0)
qed

lemma mockData_france:
  "ok resp \<Longrightarrow>
   mockData P G (Inr resp) franceQuery =
     filter (\<lambda>r. \<exists>s. getProp r ''shipCountry'' = JStr s \<and>
                     toLowerCase s = toLowerCase ''France'') (take 5 (parseCSV (body resp)))"
  using franceQuery_orders
  by (simp add: mockData_def loadCSVData_def applyQueryFiltering_france parseCSV_stringRow)

lemma mockData_freight:
  "ok resp \<Longrightarrow>
   mockData P G (Inr resp) freightQuery =
     take 1000 (filter (freightTest P (Fin 100)) (parseCSV (body resp)))"
  using freightQuery_orders
  by (simp add: mockData_def loadCSVData_def applyQueryFiltering_freight)

text \<open>
  Claim C5. Let the orders file load, with any content. Executing the query with
  \<open>WHERE shipCountry = 'France' LIMIT 5\<close> gives at most 5 rows, all rows of the file
  whose \<open>shipCountry\<close> is a string equal to \<open>France\<close> up to case; executing the query
  with \<open>WHERE freight > 100\<close> gives only rows of the file whose \<open>freight\<close>, read by
  \<open>parseFloat\<close>, is greater than 100. The file need not contain such rows for this.
\<close>

theorem filtering_determinism:
  assumes "ok resp"
  shows "length (mockData P G (Inr resp) franceQuery) \<le> 5 \<and>
         (\<forall>r\<in>set (mockData P G (Inr resp) franceQuery).
            r \<in> set (parseCSV (body resp)) \<and>
            (\<exists>s. getProp r ''shipCountry'' = JStr s \<and> toLowerCase s = toLowerCase ''France'')) \<and>
         (\<forall>r\<in>set (mockData P G (Inr resp) freightQuery).
            r \<in> set (parseCSV (body resp)) \<and>
            numGt (parseFloat P (getProp r ''freight'')) (Fin 100))"
proof -
  have "length (mockData P G (Inr resp) franceQuery) \<le> length (take 5 (parseCSV (body resp)))"
    unfolding mockData_france [OF assms] by (rule length_filter_le)
  then have a: "length (mockData P G (Inr resp) franceQuery) \<le> 5" by simp
  have b: "\<forall>r\<in>set (mockData P G (Inr resp) franceQuery).
            r \<in> set (parseCSV (body resp)) \<and>
            (\<exists>s. getProp r ''shipCountry'' = JStr s \<and> toLowerCase s = toLowerCase ''France'')"
    unfolding mockData_france [OF assms] by (auto dest: in_set_takeD)
  have c: "\<forall>r\<in>set (mockData P G (Inr resp) freightQuery).
            r \<in> set (parseCSV (body resp)) \<and>
            numGt (parseFloat P (getProp r ''freight'')) (Fin 100)"
    unfolding mockData_freight [OF assms]
    by (auto dest!: in_set_takeD simp: freightTest_def Let_def)
  from a b c show ?thesis by blast
qed

text \<open>
  The theorem at a file with a French order and an order with freight 150: the rows of
  the file, and what the two queries return.
\<close>

theorem filtering_determinism_witness:
  "ok ordersResponse \<and>
   parseCSV (body ordersResponse) =
     [[(''orderID'', JStr ''10248''), (''shipCountry'', JStr ''France''), (''freight'', JStr ''32.38'')],
      [(''orderID'', JStr ''10249''), (''shipCountry'', JStr ''Germany''), (''freight'', JStr ''150'')],
      [(''orderID'', JStr ''10250''), (''shipCountry'', JStr ''FRANCE''), (''freight'', JStr ''208.58'')]] \<and>
   mockData integerPlatform noGenerators (Inr ordersResponse) franceQuery =
     [[(''orderID'', JStr ''10248''), (''shipCountry'', JStr ''France''), (''freight'', JStr ''32.38'')],
      [(''orderID'', JStr ''10250''), (''shipCountry'', JStr ''FRANCE''), (''freight'', JStr ''208.58'')]] \<and>
   mockData integerPlatform noGenerators (Inr ordersResponse) freightQuery =
     [[(''orderID'', JStr ''10249''), (''shipCountry'', JStr ''Germany''), (''freight'', JStr ''150'')],
      [(''orderID'', JStr ''10250''), (''shipCountry'', JStr ''FRANCE''), (''freight'', JStr ''208.58'')]] \<and>
   numGt (parseFloat integerPlatform (JStr ''150'')) (Fin 100) \<and>
   numGt (parseFloat integerPlatform (JStr ''208.58'')) (Fin 100)"
proof -
  have h: "ok ordersResponse" by (simp add: ordersResponse_def)
  have d: "parseCSV (body ordersResponse) =
     [[(''orderID'', JStr ''10248''), (''shipCountry'', JStr ''France''), (''freight'', JStr ''32.38'')],
      [(''orderID'', JStr ''10249''), (''shipCountry'', JStr ''Germany''), (''freight'', JStr ''150'')],
      [(''orderID'', JStr ''10250''), (''shipCountry'', JStr ''FRANCE''), (''freight'', JStr ''208.58'')]]"
    by code_simp
  have f: "mockData integerPlatform noGenerators (Inr ordersResponse) franceQuery =
     [[(''orderID'', JStr ''10248''), (''shipCountry'', JStr ''France''), (''freight'', JStr ''32.38'')],
      [(''orderID'', JStr ''10250''), (''shipCountry'', JStr ''FRANCE''), (''freight'', JStr ''208.58'')]]"
    by code_simp
  have g: "mockData integerPlatform noGenerators (Inr ordersResponse) freightQuery =
     [[(''orderID'', JStr ''10249''), (''shipCountry'', JStr ''Germany''), (''freight'', JStr ''150'')],
      [(''orderID'', JStr ''10250''), (''shipCountry'', JStr ''FRANCE''), (''freight'', JStr ''208.58'')]]"
    by code_simp
  from filtering_determinism [OF h, of integerPlatform noGenerators] show ?thesis
    using h d f g by (simp add: getProp_def)
qed

section \<open>Properties of CSV export and parsing\<close>

subsection \<open>Text without white space at its ends\<close>

lemma trim_clean: "clean s \<Longrightarrow> trim s = s"
proof (cases s)
  case Nil
  then show ?thesis by (simp add: trim_def)
next
  case (Cons c cs)
  assume "clean s"
  then have h: "\<not> isSpace (hd s)" and l: "\<not> isSpace (last s)"
    using Cons by (auto simp: clean_def)
  have "dropWhile isSpace s = s" using h Cons by simp
  moreover have "dropWhile isSpace (rev s) = rev s"
    using l Cons by (cases "rev s") (auto simp: hd_rev [symmetric] simp del: hd_rev)
  ultimately show ?thesis by (simp add: trim_def)
qed


lemma special_chars [simp]:
  "\<not> isSpace (CHR '','')" "\<not> isSpace (CHR 0x22)" "isSpace CR" "isSpace LF"
  "LF \<noteq> CHR '',''" "LF \<noteq> CHR 0x22" "CR \<noteq> LF" "CHR '','' \<noteq> LF" "CHR 0x22 \<noteq> LF"
  by (simp_all add: isSpace_def LF_def CR_def)

subsection \<open>Reading one line\<close>

lemma loop_bare:
  "CHR '','' \<notin> set f \<Longrightarrow> CHR 0x22 \<notin> set f \<Longrightarrow>
   parseCSVLoop (f @ rest) cur False res = parseCSVLoop rest (cur @ f) False res"
  by (induction f arbitrary: cur) auto

lemma loop_quoted:
  "rest = [] \<or> hd rest \<noteq> CHR 0x22 \<Longrightarrow>
   parseCSVLoop (doubleQuotes s @ CHR 0x22 # rest) cur True res =
   parseCSVLoop rest (cur @ s) False res"
proof (induction s arbitrary: cur)
  case Nil
  then show ?case by (auto simp: doubleQuotes_def)
next
  case (Cons c s)
  show ?case
  proof (cases "c = CHR 0x22")
    case True
    have "doubleQuotes (c # s) @ CHR 0x22 # rest =
          CHR 0x22 # CHR 0x22 # (doubleQuotes s @ CHR 0x22 # rest)"
      using True by (simp add: doubleQuotes_def)
    then have "parseCSVLoop (doubleQuotes (c # s) @ CHR 0x22 # rest) cur True res =
               parseCSVLoop (doubleQuotes s @ CHR 0x22 # rest) (cur @ [CHR 0x22]) True res"
      by simp
    also have "\<dots> = parseCSVLoop rest ((cur @ [CHR 0x22]) @ s) False res"
      by (rule Cons.IH [OF Cons.prems])
    finally show ?thesis using True by simp
  next
    case False
    have "doubleQuotes (c # s) @ CHR 0x22 # rest = c # (doubleQuotes s @ CHR 0x22 # rest)"
      using False by (simp add: doubleQuotes_def)
    then have "parseCSVLoop (doubleQuotes (c # s) @ CHR 0x22 # rest) cur True res =
               parseCSVLoop (doubleQuotes s @ CHR 0x22 # rest) (cur @ [c]) True res"
      using False by simp
    also have "\<dots> = parseCSVLoop rest ((cur @ [c]) @ s) False res"
      by (rule Cons.IH [OF Cons.prems])
    finally show ?thesis by simp
  qed
qed

lemma joinElement_JStr [simp]: "joinElement P (JStr s) = s"
  by (simp add: joinElement_def)

lemma loop_field:
  assumes cell: "exportableCell P v"
    and rest: "rest = [] \<or> hd rest = CHR '',''"
  shows "parseCSVLoop (joinElement P (csvField v) @ rest) cur False res =
         parseCSVLoop rest (cur @ joinElement P v) False res"
proof (cases "\<exists>s. v = JStr s \<and> needsQuotes s")
  case True
  then obtain s where v: "v = JStr s" and q: "needsQuotes s" by blast
  have r: "rest = [] \<or> hd rest \<noteq> CHR 0x22" using rest by auto
  have "parseCSVLoop (CHR 0x22 # doubleQuotes s @ CHR 0x22 # rest) cur False res =
        parseCSVLoop (doubleQuotes s @ CHR 0x22 # rest) cur True res"
    by simp
  then show ?thesis
    using loop_quoted [OF r, of s cur res] v q by (simp add: csvField_def)
next
  case False
  then have same: "csvField v = v"
    by (cases v) (auto simp: csvField_def)
  have "CHR '','' \<notin> set (joinElement P v) \<and> CHR 0x22 \<notin> set (joinElement P v)"
  proof (cases v)
    case (JStr s)
    with False have "\<not> needsQuotes s" by simp
    then show ?thesis using JStr by (simp add: needsQuotes_def)
  qed (use cell in \<open>auto simp: exportableCell_def bareText_def\<close>)
  then show ?thesis
    by (simp add: same loop_bare)
qed

lemma exportableCell_clean: "exportableCell P v \<Longrightarrow> clean (joinElement P v)"
  by (cases v) (auto simp: exportableCell_def bareText_def plainText_def)

lemma exportableCell_noLF: "exportableCell P v \<Longrightarrow> LF \<notin> set (joinElement P v)"
  by (cases v) (auto simp: exportableCell_def bareText_def plainText_def)

lemma loop_line:
  assumes "\<forall>v\<in>set vs. exportableCell P v" "vs \<noteq> []"
  shows "parseCSVLoop (join '','' (map (\<lambda>v. joinElement P (csvField v)) vs)) [] False res =
         res @ map (joinElement P) vs"
  using assms
proof (induction vs arbitrary: res)
  case Nil
  then show ?case by simp
next
  case (Cons v vs)
  have tv: "trim (joinElement P v) = joinElement P v"
    using Cons.prems(1) by (simp add: trim_clean exportableCell_clean)
  show ?case
  proof (cases vs)
    case Nil
    have "parseCSVLoop (joinElement P (csvField v) @ []) [] False res =
          parseCSVLoop [] ([] @ joinElement P v) False res"
      by (rule loop_field) (use Cons.prems in auto)
    then show ?thesis using Nil tv by simp
  next
    case (Cons w ws)
    let ?rest = "CHR '','' # join '','' (map (\<lambda>v. joinElement P (csvField v)) vs)"
    have "parseCSVLoop (joinElement P (csvField v) @ ?rest) [] False res =
          parseCSVLoop ?rest ([] @ joinElement P v) False res"
      by (rule loop_field) (use Cons.prems in auto)
    also have "\<dots> = parseCSVLoop (join '','' (map (\<lambda>v. joinElement P (csvField v)) vs)) []
                       False (res @ [joinElement P v])"
      by (simp add: tv)
    also have "\<dots> = (res @ [joinElement P v]) @ map (joinElement P) vs"
      by (rule Cons.IH) (use Cons.prems Cons in auto)
    finally show ?thesis using Cons by simp
  qed
qed

lemma parseCSVLine_cells:
  "\<forall>v\<in>set vs. exportableCell P v \<Longrightarrow> vs \<noteq> [] \<Longrightarrow>
   parseCSVLine (join '','' (map (\<lambda>v. joinElement P (csvField v)) vs)) = map (joinElement P) vs"
  using loop_line [of vs P "[]"] by (simp add: parseCSVLine_def)

lemma bare_exportable: "bareText h \<Longrightarrow> exportableCell P (JStr h)"
  by (simp add: exportableCell_def bareText_def)

lemma bare_csvField: "bareText h \<Longrightarrow> csvField (JStr h) = JStr h"
  by (simp add: csvField_def bareText_def needsQuotes_def plainText_def)

lemma parseCSVLine_headers:
  assumes "\<forall>h\<in>set hs. bareText h" "hs \<noteq> []"
  shows "parseCSVLine (join '','' hs) = hs"
proof -
  have "map (\<lambda>v. joinElement P (csvField v)) (map JStr hs) = hs" for P
    using assms(1) by (induction hs) (auto simp: bare_csvField)
  moreover have "map (joinElement P) (map JStr hs) = hs" for P
    by (induction hs) auto
  ultimately show ?thesis
    using parseCSVLine_cells [of "map JStr hs" integerPlatform] assms
    by (simp add: bare_exportable)
qed


subsection \<open>Splitting the text into lines\<close>

lemma splitLines_single: "LF \<notin> set l \<Longrightarrow> splitLines l = [l]"
proof (induction l)
  case Nil
  then show ?case by simp
next
  case (Cons c l)
  then have "\<not> (l \<noteq> [] \<and> hd l = LF)" by (cases l) auto
  with Cons show ?case by auto
qed

lemma splitLines_line:
  "LF \<notin> set l \<Longrightarrow> l = [] \<or> last l \<noteq> CR \<Longrightarrow>
   splitLines (l @ LF # rest) = l # splitLines rest"
proof (induction l)
  case Nil
  then show ?case by simp
next
  case (Cons c l)
  have c: "c \<noteq> LF" using Cons.prems by auto
  have IH: "splitLines (l @ LF # rest) = l # splitLines rest"
    using Cons by (cases l) auto
  have "\<not> (c = CR \<and> hd (l @ LF # rest) = LF)"
  proof
    assume a: "c = CR \<and> hd (l @ LF # rest) = LF"
    then have "l = []" using Cons.prems(1) by (cases l) auto
    with a Cons.prems(2) show False by simp
  qed
  then show ?case using c IH by auto
qed

lemma splitLines_join:
  assumes "\<forall>l\<in>set ls. LF \<notin> set l \<and> (l = [] \<or> last l \<noteq> CR)" "ls \<noteq> []"
  shows "splitLines (join [LF] ls) = ls"
  using assms
proof (induction ls)
  case Nil
  then show ?case by simp
next
  case (Cons l ls)
  show ?case
  proof (cases ls)
    case Nil
    then show ?thesis using Cons.prems by (simp add: splitLines_single)
  next
    case (Cons m ms)
    have "splitLines (l @ LF # join [LF] ls) = l # splitLines (join [LF] ls)"
      by (rule splitLines_line) (use Cons.prems in auto)
    moreover have "splitLines (join [LF] ls) = ls"
      by (rule Cons.IH) (use Cons.prems Cons in auto)
    ultimately show ?thesis using Cons by simp
  qed
qed

subsection \<open>The ends of a line and of the text\<close>

lemma clean_not_CR: "clean l \<Longrightarrow> l = [] \<or> last l \<noteq> CR"
  by (auto simp: clean_def)

lemma hd_join: "xs \<noteq> [] \<Longrightarrow> hd xs \<noteq> [] \<Longrightarrow> hd (join sep xs) = hd (hd xs)"
  by (induction sep xs rule: join.induct) auto

lemma fieldText_clean: "exportableCell P v \<Longrightarrow> clean (joinElement P (csvField v))"
proof (cases "\<exists>s. v = JStr s \<and> needsQuotes s")
  case True
  then show ?thesis by (auto simp: csvField_def clean_def)
next
  case False
  assume "exportableCell P v"
  moreover have "csvField v = v" using False by (cases v) (auto simp: csvField_def)
  ultimately show ?thesis by (simp add: exportableCell_clean)
qed

lemma doubleQuotes_noLF: "LF \<notin> set s \<Longrightarrow> LF \<notin> set (doubleQuotes s)"
  by (induction s) (auto simp: doubleQuotes_def)

lemma fieldText_noLF: "exportableCell P v \<Longrightarrow> LF \<notin> set (joinElement P (csvField v))"
proof (cases "\<exists>s. v = JStr s \<and> needsQuotes s")
  case True
  assume "exportableCell P v"
  with True show ?thesis
    by (auto simp: csvField_def exportableCell_def plainText_def doubleQuotes_noLF)
next
  case False
  assume "exportableCell P v"
  moreover have "csvField v = v" using False by (cases v) (auto simp: csvField_def)
  ultimately show ?thesis by (simp add: exportableCell_noLF)
qed

lemma set_join: "set (join sep xs) \<subseteq> set sep \<union> \<Union> (set ` set xs)"
  by (induction sep xs rule: join.induct) auto

lemma join_noLF: "\<forall>f\<in>set fs. LF \<notin> set f \<Longrightarrow> LF \<notin> set (join '','' fs)"
  using set_join [of "'',''" fs] by auto

lemma join_clean: "\<forall>f\<in>set fs. clean f \<Longrightarrow> clean (join '','' fs)"
proof (induction "'',''" fs rule: join.induct)
  case 1
  then show ?case by (simp add: clean_def)
next
  case (2 x)
  then show ?case by simp
next
  case (3 x y ys)
  then have rest: "clean (join '','' (y # ys))" and x: "clean x" by simp_all
  let ?r = "join '','' (y # ys)"
  have "\<not> isSpace (hd (x @ '','' @ ?r))"
    using x by (cases x) (auto simp: clean_def)
  moreover have "\<not> isSpace (last (x @ '','' @ ?r))"
    using rest by (cases "?r = []") (auto simp: clean_def)
  ultimately show ?case by (simp add: clean_def)
qed

lemma join_empty: "join sep xs = [] \<Longrightarrow> sep \<noteq> [] \<Longrightarrow> xs = [] \<or> xs = [[]]"
  by (induction sep xs rule: join.induct) auto

lemma clean_text:
  assumes "ls \<noteq> []" "hd ls \<noteq> []" "last ls \<noteq> []" "\<forall>l\<in>set ls. clean l"
  shows "clean (join [LF] ls)"
proof -
  have h: "\<not> isSpace (hd (join [LF] ls))"
    using assms by (simp add: hd_join) (metis clean_def hd_in_set)
  have "last (join [LF] ls) = last (last ls)"
    using assms(1,3)
  proof (induction "[LF]" ls rule: join.induct)
    case 1
    then show ?case by simp
  next
    case (2 x)
    then show ?case by simp
  next
    case (3 x y ys)
    then have "join [LF] (y # ys) \<noteq> []" by (auto dest: join_empty)
    with 3 show ?case by simp
  qed
  then have l: "\<not> isSpace (last (join [LF] ls))"
    using assms by (metis clean_def last_in_set)
  from h l show ?thesis by (simp add: clean_def)
qed


subsection \<open>Building the rows\<close>

lemma update_fresh: "k \<notin> fst ` set al \<Longrightarrow> AList.update k v al = al @ [(k, v)]"
  by (induction al) auto

lemma foldl_assign:
  "distinct (map fst acc @ hs) \<Longrightarrow> ''__proto__'' \<notin> set hs \<Longrightarrow> length hs = length vs \<Longrightarrow>
   foldl (\<lambda>r (header, v). assign r header (JStr v)) acc (zip hs vs) =
   acc @ map (\<lambda>(h, v). (h, JStr v)) (zip hs vs)"
proof (induction hs arbitrary: acc vs)
  case Nil
  then show ?case by simp
next
  case (Cons h hs)
  then obtain v vs' where vs: "vs = v # vs'" by (cases vs) auto
  have fresh: "h \<notin> fst ` set acc" using Cons.prems(1) by auto
  have step: "assign acc h (JStr v) = acc @ [(h, JStr v)]"
    using Cons.prems(2) fresh by (auto simp: assign_def update_fresh)
  have "foldl (\<lambda>r (header, v). assign r header (JStr v)) (acc @ [(h, JStr v)]) (zip hs vs') =
        (acc @ [(h, JStr v)]) @ map (\<lambda>(h, v). (h, JStr v)) (zip hs vs')"
    by (rule Cons.IH) (use Cons.prems vs in auto)
  then show ?case using vs step by simp
qed

lemma makeRow_row:
  assumes "distinct (map fst r)" "''__proto__'' \<notin> set (map fst r)"
  shows "makeRow (map fst r) (map (\<lambda>p. joinElement P (snd p)) r) =
         map (\<lambda>p. (fst p, JStr (joinElement P (snd p)))) r"
proof -
  have "zip (map fst r) (map (\<lambda>p. joinElement P (snd p)) r) =
        map (\<lambda>p. (fst p, joinElement P (snd p))) r"
    by (induction r) auto
  then show ?thesis
    unfolding makeRow_def
    using foldl_assign [of "[]" "map fst r" "map (\<lambda>p. joinElement P (snd p)) r"] assms
    by (simp add: o_def case_prod_unfold)
qed

lemma getProp_distinct: "distinct (map fst r) \<Longrightarrow> p \<in> set r \<Longrightarrow> getProp r (fst p) = snd p"
  by (cases p) (simp add: getProp_def)

lemma row_fields:
  assumes "distinct (map fst r)"
  shows "map (\<lambda>header. F (getProp r header)) (map fst r) = map (\<lambda>v. F v) (map snd r)"
  using getProp_distinct [OF assms] by (simp add: o_def)

lemma fieldText_empty: "joinElement P (csvField v) = [] \<Longrightarrow> joinElement P v = []"
proof (cases "\<exists>s. v = JStr s \<and> needsQuotes s")
  case True
  assume "joinElement P (csvField v) = []"
  with True show ?thesis by (auto simp: csvField_def)
next
  case False
  assume "joinElement P (csvField v) = []"
  moreover have "csvField v = v" using False by (cases v) (auto simp: csvField_def)
  ultimately show ?thesis by simp
qed

subsection \<open>The round trip\<close>

lemma parseCSV_csvContent:
  assumes ex: "exportableRows P rows"
  shows "parseCSV (csvContent P rows) = asParsed P rows"
proof -
  define headers where "headers = map fst (hd rows)"
  define field where "field = (\<lambda>v. joinElement P (csvField v))"
  define line where "line = (\<lambda>r :: row. join '','' (map field (map snd r)))"
  note e = ex [unfolded exportableRows_def Let_def, folded headers_def]
  have rows: "rows \<noteq> []"
    using e by blast
  have hs: "headers \<noteq> []" "headers \<noteq> [[]]" "distinct headers" "''__proto__'' \<notin> set headers"
    using e by blast+
  have bare: "\<forall>h\<in>set headers. bareText h"
    using e by blast
  have same: "map fst r = headers" if "r \<in> set rows" for r
    using e that by blast
  have cells: "exportableCell P (snd p)" if "r \<in> set rows" "p \<in> set r" for r p
    using e that by blast
  have lastrow: "map (\<lambda>p. joinElement P (snd p)) (last rows) \<noteq> [[]]"
    using e by (elim conjE)
  have content: "csvContent P rows = join [LF] (join '','' headers # map line rows)"
  proof -
    have "map (\<lambda>header. joinElement P (csvField (getProp r header))) headers =
          map field (map snd r)" if "r \<in> set rows" for r
      using row_fields [of r "\<lambda>v. joinElement P (csvField v)"] same [OF that] hs(3)
      by (simp add: field_def)
    then show ?thesis
      by (simp add: csvContent_def Let_def headers_def [symmetric] line_def cong: map_cong)
  qed
  have ne: "map snd r \<noteq> []" if "r \<in> set rows" for r
    using same [OF that] hs(1) by auto
  have cellsv: "\<forall>v\<in>set (map snd r). exportableCell P v" if "r \<in> set rows" for r
    using cells [OF that] by auto
  have hl_clean: "clean (join '','' headers)"
    by (rule join_clean) (use bare in \<open>auto simp: bareText_def plainText_def\<close>)
  have hl_noLF: "LF \<notin> set (join '','' headers)"
    by (rule join_noLF) (use bare in \<open>auto simp: bareText_def plainText_def\<close>)
  have line_clean: "clean (line r)" if "r \<in> set rows" for r
    unfolding line_def field_def
    by (rule join_clean) (use cellsv [OF that] in \<open>auto simp: fieldText_clean\<close>)
  have line_noLF: "LF \<notin> set (line r)" if "r \<in> set rows" for r
    unfolding line_def field_def
    by (rule join_noLF) (use cellsv [OF that] in \<open>auto simp: fieldText_noLF\<close>)
  let ?ls = "join '','' headers # map line rows"
  have all_clean: "\<forall>l\<in>set ?ls. clean l"
    using hl_clean line_clean by auto
  have all_noLF: "\<forall>l\<in>set ?ls. LF \<notin> set l \<and> (l = [] \<or> last l \<noteq> CR)"
    using hl_clean hl_noLF line_clean line_noLF by (auto dest: clean_not_CR)
  have hl_ne: "join '','' headers \<noteq> []"
    using hs(1,2) join_empty [of "'',''" headers] by auto
  have last_ne: "last ?ls \<noteq> []"
  proof -
    have l: "last ?ls = line (last rows)" using rows by (simp add: last_map)
    have "line (last rows) \<noteq> []"
    proof
      assume e: "line (last rows) = []"
      have lr: "last rows \<in> set rows" using rows by simp
      from e have "map field (map snd (last rows)) = [[]]"
        using join_empty [of "'',''" "map field (map snd (last rows))"] ne [OF lr]
        by (auto simp: line_def)
      then obtain v where v: "map snd (last rows) = [v]" and f: "field v = []"
        by (cases "map snd (last rows)") auto
      from f have "joinElement P v = []"
        by (simp add: field_def fieldText_empty)
      with v have "map (\<lambda>p. joinElement P (snd p)) (last rows) = [[]]"
        by (cases "last rows") auto
      with lastrow show False by simp
    qed
    with l show ?thesis by simp
  qed
  have "clean (join [LF] ?ls)"
    by (rule clean_text) (use hl_ne last_ne all_clean in simp_all)
  then have trimmed: "trim (csvContent P rows) = csvContent P rows"
    by (simp add: content trim_clean)
  have split: "splitLines (csvContent P rows) = ?ls"
    unfolding content by (rule splitLines_join) (use all_noLF in simp_all)
  have header_line: "parseCSVLine (join '','' headers) = headers"
    by (rule parseCSVLine_headers) (use bare hs in simp_all)
  have row_line: "parseCSVLine (line r) = map (\<lambda>p. joinElement P (snd p)) r"
    if "r \<in> set rows" for r
    using parseCSVLine_cells [OF cellsv [OF that] ne [OF that]]
    by (simp add: line_def field_def o_def)
  have one: "(let values = parseCSVLine (line r)
              in if length values = length headers then [makeRow headers values] else []) =
             [map (\<lambda>p. (fst p, JStr (joinElement P (snd p)))) r]"
    if "r \<in> set rows" for r
  proof -
    have len: "length (map (\<lambda>p. joinElement P (snd p)) r) = length headers"
      using same [OF that] by (metis length_map)
    have "makeRow headers (map (\<lambda>p. joinElement P (snd p)) r) =
          map (\<lambda>p. (fst p, JStr (joinElement P (snd p)))) r"
      using makeRow_row [of r P] same [OF that] hs(3,4) by simp
    then show ?thesis
      using len by (simp add: row_line [OF that] Let_def)
  qed
  have "parseCSV (csvContent P rows) =
        concat (map (\<lambda>l. let values = parseCSVLine l
                          in if length values = length headers
                             then [makeRow headers values] else [])
                    (map line rows))"
    by (simp add: parseCSV_def trimmed split header_line Let_def)
  also have "\<dots> = concat (map (\<lambda>r. [map (\<lambda>p. (fst p, JStr (joinElement P (snd p)))) r]) rows)"
    using one by (simp add: o_def cong: map_cong)
  also have "\<dots> = asParsed P rows"
    by (induction rows) (simp_all add: asParsed_def)
  finally show ?thesis .
qed

lemma asParsed_strings: "\<forall>r\<in>set rows. stringRow r \<Longrightarrow> asParsed P rows = rows"
proof -
  assume a: "\<forall>r\<in>set rows. stringRow r"
  have "map (\<lambda>p. (fst p, JStr (joinElement P (snd p)))) r = r" if "stringRow r" for r
  proof (rule map_idI)
    fix p assume "p \<in> set r"
    with that obtain s where "snd p = JStr s" by (auto simp: stringRow_def)
    then show "(fst p, JStr (joinElement P (snd p))) = p" by (cases p) simp
  qed
  with a show ?thesis by (simp add: asParsed_def map_idI)
qed

text \<open>
  Claim C6, as the code has it. For a result set that can be exported
  (\<open>exportableRows\<close>: at least one row and one column; distinct column names without
  comma, double quote, line feed or white space at their ends; every row with the columns
  of the first; string cells without line feed or white space at their ends; other cells
  whose text has no comma or double quote either; a header line and a last line that are
  not empty), the export in a browser produces the text \<open>csvContent\<close>, and parsing that
  text gives as many rows as the result set has, each cell being the text of the
  original cell: a string cell comes back as it was, quoted or not, and a number as the
  string \<open>Number.prototype.toString\<close> writes. A result set of string cells comes back
  unchanged.
\<close>

theorem export_roundtrip:
  assumes "exportableRows P rows"
  shows "exportToCSV P True rows filename = Some (csvContent P rows, filename) \<and>
         parseCSV (csvContent P rows) = asParsed P rows \<and>
         length (parseCSV (csvContent P rows)) = length rows \<and>
         ((\<forall>r\<in>set rows. stringRow r) \<longrightarrow> parseCSV (csvContent P rows) = rows)"
proof -
  have "rows \<noteq> []" using assms by (simp add: exportableRows_def)
  then have "exportToCSV P True rows filename = Some (csvContent P rows, filename)"
    by (simp add: exportToCSV_def)
  moreover have p: "parseCSV (csvContent P rows) = asParsed P rows"
    using assms by (rule parseCSV_csvContent)
  moreover have "length (asParsed P rows) = length rows"
    by (simp add: asParsed_def)
  ultimately show ?thesis
    by (simp add: asParsed_strings)
qed

text \<open>
  The theorem at two rows with a comma and with double quotes in a cell: the text that
  is exported, and the rows that are parsed from it.
\<close>

theorem export_roundtrip_witness:
  "exportableRows integerPlatform
     [[(''name'', JStr ''Smith, John''), (''qty'', JNum (Fin 5))],
      [(''name'', JStr (''say '' @ [CHR 0x22] @ ''hi'' @ [CHR 0x22])), (''qty'', JNum (Fin 12))]] \<and>
   csvContent integerPlatform
     [[(''name'', JStr ''Smith, John''), (''qty'', JNum (Fin 5))],
      [(''name'', JStr (''say '' @ [CHR 0x22] @ ''hi'' @ [CHR 0x22])), (''qty'', JNum (Fin 12))]] =
     ''name,qty'' @ [LF] @
     [CHR 0x22] @ ''Smith, John'' @ [CHR 0x22] @ '',5'' @ [LF] @
     [CHR 0x22] @ ''say '' @ [CHR 0x22, CHR 0x22] @ ''hi'' @ [CHR 0x22, CHR 0x22] @
     [CHR 0x22] @ '',12'' \<and>
   parseCSV (csvContent integerPlatform
     [[(''name'', JStr ''Smith, John''), (''qty'', JNum (Fin 5))],
      [(''name'', JStr (''say '' @ [CHR 0x22] @ ''hi'' @ [CHR 0x22])), (''qty'', JNum (Fin 12))]]) =
     [[(''name'', JStr ''Smith, John''), (''qty'', JStr ''5'')],
      [(''name'', JStr (''say '' @ [CHR 0x22] @ ''hi'' @ [CHR 0x22])), (''qty'', JStr ''12'')]]"
proof -
  have h: "exportableRows integerPlatform
     [[(''name'', JStr ''Smith, John''), (''qty'', JNum (Fin 5))],
      [(''name'', JStr (''say '' @ [CHR 0x22] @ ''hi'' @ [CHR 0x22])), (''qty'', JNum (Fin 12))]]"
    by code_simp
  have c: "csvContent integerPlatform
     [[(''name'', JStr ''Smith, John''), (''qty'', JNum (Fin 5))],
      [(''name'', JStr (''say '' @ [CHR 0x22] @ ''hi'' @ [CHR 0x22])), (''qty'', JNum (Fin 12))]] =
     ''name,qty'' @ [LF] @
     [CHR 0x22] @ ''Smith, John'' @ [CHR 0x22] @ '',5'' @ [LF] @
     [CHR 0x22] @ ''say '' @ [CHR 0x22, CHR 0x22] @ ''hi'' @ [CHR 0x22, CHR 0x22] @
     [CHR 0x22] @ '',12''"
    by code_simp
  have a: "asParsed integerPlatform
     [[(''name'', JStr ''Smith, John''), (''qty'', JNum (Fin 5))],
      [(''name'', JStr (''say '' @ [CHR 0x22] @ ''hi'' @ [CHR 0x22])), (''qty'', JNum (Fin 12))]] =
     [[(''name'', JStr ''Smith, John''), (''qty'', JStr ''5'')],
      [(''name'', JStr (''say '' @ [CHR 0x22] @ ''hi'' @ [CHR 0x22])), (''qty'', JStr ''12'')]]"
    by code_simp
  from export_roundtrip [OF h] have
    "parseCSV (csvContent integerPlatform
     [[(''name'', JStr ''Smith, John''), (''qty'', JNum (Fin 5))],
      [(''name'', JStr (''say '' @ [CHR 0x22] @ ''hi'' @ [CHR 0x22])), (''qty'', JNum (Fin 12))]]) =
     asParsed integerPlatform
     [[(''name'', JStr ''Smith, John''), (''qty'', JNum (Fin 5))],
      [(''name'', JStr (''say '' @ [CHR 0x22] @ ''hi'' @ [CHR 0x22])), (''qty'', JNum (Fin 12))]]"
    by blast
  with h c a show ?thesis by (simp only: simp_thms)
qed

text \<open>
  Outside these result sets the round trip fails. A cell with a line feed is exported
  in quotes and parsed as two rows; a cell with white space at its ends comes back
  trimmed; an empty result set is not exported at all; an empty last cell of a single
  column loses its row; a comma in a column name, or in the text of an array, makes the
  parser drop the rows; a column named \<open>__proto__\<close> is lost.
\<close>

theorem export_roundtrip_counterexample:
  "parseCSV (csvContent integerPlatform [[(''a'', JStr (''x'' @ [LF] @ ''y''))]]) =
     [[(''a'', JStr ''x'')], [(''a'', JStr ''y'')]] \<and>
   parseCSV (csvContent integerPlatform [[(''a'', JStr '' x '')]]) = [[(''a'', JStr ''x'')]] \<and>
   exportToCSV integerPlatform True [] ''out.csv'' = None \<and>
   parseCSV (csvContent integerPlatform [[(''a'', JStr ''x'')], [(''a'', JStr [])]]) =
     [[(''a'', JStr ''x'')]] \<and>
   parseCSV (csvContent integerPlatform [[(''a,b'', JStr ''x'')]]) = [] \<and>
   parseCSV (csvContent integerPlatform [[(''a'', JArr [JNum (Fin 1), JNum (Fin 2)])]]) = [] \<and>
   parseCSV (csvContent integerPlatform [[(''__proto__'', JStr ''x'')]]) = [[]]"
  by code_simp

end
